theory Spec2Isabelle
  imports Main
begin

section \<open>JSON-like values and the JavaScript operations the checker applies to them\<close>

text \<open>
  The values that \<^verbatim>\<open>JSON.parse\<close> produces. An object is the list of its own
  properties in enumeration order (what \<^verbatim>\<open>for ... in\<close> visits); a property that is
  not there reads as \<^verbatim>\<open>undefined\<close>, which is \<open>None\<close> of \<open>json option\<close>. A number
  is kept as its text, the string that \<^verbatim>\<open>String(n)\<close> gives for it (\<open>123\<close>,
  \<open>1.5\<close>, \<open>1e+21\<close>): a number and its text determine each other up to the sign of
  zero, which no operation below observes, and the text of zero is \<open>0\<close>.
\<close>

datatype json =
  JNull
  | JBool bool
  | JNum string
  | JStr string
  | JArr "json list"
  | JObj "(string \<times> json) list"

text \<open>The one exception the operations below raise.\<close>

datatype exn = TypeError

text \<open>Decimal numerals, for the index names of arrays and strings and for lengths.\<close>

definition digit_char :: "nat \<Rightarrow> char" where
  "digit_char d = char_of (48 + d)"

function show_nat :: "nat \<Rightarrow> string" where
  "show_nat n = (if n < 10 then [digit_char n] else show_nat (n div 10) @ [digit_char (n mod 10)])"
  by pat_completeness auto
termination
  by (relation "measure id") auto

declare show_nat.simps [simp del]

text \<open>\<^verbatim>\<open>typeof\<close>, \<^verbatim>\<open>Array.isArray\<close> and truthiness, on a value that may be undefined.\<close>

fun typeof :: "json option \<Rightarrow> string" where
  "typeof None = ''undefined''"
| "typeof (Some JNull) = ''object''"
| "typeof (Some (JBool _)) = ''boolean''"
| "typeof (Some (JNum _)) = ''number''"
| "typeof (Some (JStr _)) = ''string''"
| "typeof (Some (JArr _)) = ''object''"
| "typeof (Some (JObj _)) = ''object''"

fun isArray :: "json option \<Rightarrow> bool" where
  "isArray (Some (JArr _)) = True"
| "isArray _ = False"

fun truthy :: "json option \<Rightarrow> bool" where
  "truthy None = False"
| "truthy (Some JNull) = False"
| "truthy (Some (JBool b)) = b"
| "truthy (Some (JNum n)) = (n \<noteq> ''0'')"
| "truthy (Some (JStr s)) = (s \<noteq> [])"
| "truthy (Some (JArr _)) = True"
| "truthy (Some (JObj _)) = True"

text \<open>The values that are objects: the operator \<^verbatim>\<open>in\<close> raises on every other value.\<close>

fun is_object :: "json \<Rightarrow> bool" where
  "is_object (JObj _) = True"
| "is_object (JArr _) = True"
| "is_object _ = False"

text \<open>
  The enumerable own properties of a value, in \<^verbatim>\<open>for ... in\<close> order: an object's
  properties, the elements of an array and the characters of a string under their index
  names.
\<close>

fun own_entries :: "json \<Rightarrow> (string \<times> json) list" where
  "own_entries (JObj kvs) = kvs"
| "own_entries (JArr xs) = zip (map show_nat [0..<length xs]) xs"
| "own_entries (JStr s) = zip (map show_nat [0..<length s]) (map (\<lambda>c. JStr [c]) s)"
| "own_entries _ = []"

definition keys_in :: "json \<Rightarrow> string list" where
  "keys_in v = map fst (own_entries v)"

text \<open>
  Read of an own property, \<^verbatim>\<open>v[k]\<close> and \<^verbatim>\<open>v.k\<close>, on a value that is not null:
  an array and a string also have their \<^verbatim>\<open>length\<close>. The parser and the checker read
  inputs under their own names, and otherwise only the names \<open>description\<close>, \<open>inputs\<close>,
  \<open>expectedOutcome\<close>, \<open>status\<close>, \<open>validationRules\<close>, \<open>type\<close> and \<open>enum\<close>, which no
  value inherits.
\<close>

definition get_prop :: "json \<Rightarrow> string \<Rightarrow> json option" where
  "get_prop v k =
     (case v of
        JArr xs \<Rightarrow> if k = ''length'' then Some (JNum (show_nat (length xs))) else map_of (own_entries v) k
      | JStr s \<Rightarrow> if k = ''length'' then Some (JNum (show_nat (length s))) else map_of (own_entries v) k
      | _ \<Rightarrow> map_of (own_entries v) k)"

text \<open>
  The names every object inherits from \<^verbatim>\<open>Object.prototype\<close>, and those an array
  inherits from \<^verbatim>\<open>Array.prototype\<close> besides (the members the language standard of 2023
  lists). Each inherited member is a function, or for \<^verbatim>\<open>__proto__\<close> the prototype
  object: it is truthy and has no property \<open>type\<close> or \<open>enum\<close>.
\<close>

definition object_prototype_names :: "string list" where
  "object_prototype_names =
     [''constructor'', ''hasOwnProperty'', ''isPrototypeOf'', ''propertyIsEnumerable'',
      ''toLocaleString'', ''toString'', ''valueOf'', ''__proto__'', ''__defineGetter__'',
      ''__defineSetter__'', ''__lookupGetter__'', ''__lookupSetter__'']"

definition array_prototype_names :: "string list" where
  "array_prototype_names =
     [''at'', ''concat'', ''copyWithin'', ''entries'', ''every'', ''fill'', ''filter'', ''find'',
      ''findIndex'', ''findLast'', ''findLastIndex'', ''flat'', ''flatMap'', ''forEach'',
      ''includes'', ''indexOf'', ''join'', ''keys'', ''lastIndexOf'', ''map'', ''pop'', ''push'',
      ''reduce'', ''reduceRight'', ''reverse'', ''shift'', ''slice'', ''some'', ''sort'',
      ''splice'', ''toReversed'', ''toSorted'', ''toSpliced'', ''unshift'', ''values'', ''with'']"

fun inherited_names :: "json \<Rightarrow> string list" where
  "inherited_names (JObj _) = object_prototype_names"
| "inherited_names (JArr _) = array_prototype_names @ object_prototype_names"
| "inherited_names _ = []"

text \<open>The operator \<^verbatim>\<open>k in v\<close> on an object: the name is an own property or an inherited one.\<close>

definition has_property :: "string \<Rightarrow> json \<Rightarrow> bool" where
  "has_property k v = (get_prop v k \<noteq> None \<or> k \<in> set (inherited_names v))"

text \<open>
  Text of a value, as a template literal and \<^verbatim>\<open>Array.prototype.join\<close> produce it.
  An object without an own \<open>toString\<close> inherits the one that answers
  \<^verbatim>\<open>[object Object]\<close>; an own \<open>toString\<close> of a parsed object is never a function, and
  then the conversion raises, since \<open>valueOf\<close>, own or inherited, gives no primitive
  either. An array is the join of its elements by commas, and \<^verbatim>\<open>join\<close> writes a null
  element as the empty string.
\<close>

fun join_with :: "string \<Rightarrow> string list \<Rightarrow> string" where
  "join_with sep [] = []"
| "join_with sep [s] = s"
| "join_with sep (s # t # ts) = s @ sep @ join_with sep (t # ts)"

fun to_text :: "json \<Rightarrow> exn + string"
  and element_texts :: "json list \<Rightarrow> exn + string list" where
  "to_text JNull = Inr ''null''"
| "to_text (JBool b) = Inr (if b then ''true'' else ''false'')"
| "to_text (JNum n) = Inr n"
| "to_text (JStr s) = Inr s"
| "to_text (JArr xs) =
     (case element_texts xs of Inl e \<Rightarrow> Inl e | Inr ts \<Rightarrow> Inr (join_with '','' ts))"
| "to_text (JObj kvs) =
     (if map_of kvs ''toString'' \<noteq> None then Inl TypeError else Inr ''[object Object]'')"
| "element_texts [] = Inr []"
| "element_texts (x # xs) =
     (case (if x = JNull then Inr [] else to_text x) of
        Inl e \<Rightarrow> Inl e
      | Inr t \<Rightarrow> (case element_texts xs of Inl e \<Rightarrow> Inl e | Inr ts \<Rightarrow> Inr (t # ts)))"

definition text_of :: "json option \<Rightarrow> exn + string" where
  "text_of v = (case v of None \<Rightarrow> Inr ''undefined'' | Some x \<Rightarrow> to_text x)"

definition join_values :: "string \<Rightarrow> json list \<Rightarrow> exn + string" where
  "join_values sep xs =
     (case element_texts xs of Inl e \<Rightarrow> Inl e | Inr ts \<Rightarrow> Inr (join_with sep ts))"

text \<open>
  \<^verbatim>\<open>Array.prototype.includes\<close> compares primitives by value and objects by identity;
  a parsed input object is never the object stored in the schema's enum.
\<close>

fun is_primitive :: "json option \<Rightarrow> bool" where
  "is_primitive (Some (JArr _)) = False"
| "is_primitive (Some (JObj _)) = False"
| "is_primitive _ = True"

definition array_includes :: "json list \<Rightarrow> json option \<Rightarrow> bool" where
  "array_includes xs v = (case v of None \<Rightarrow> False | Some x \<Rightarrow> is_primitive v \<and> x \<in> set xs)"

text \<open>A loop whose body may raise: the first exception ends it.\<close>

fun for_each :: "('s \<Rightarrow> 'a \<Rightarrow> exn + 's) \<Rightarrow> 's \<Rightarrow> 'a list \<Rightarrow> exn + 's" where
  "for_each body st [] = Inr st"
| "for_each body st (x # xs) =
     (case body st x of Inl e \<Rightarrow> Inl e | Inr st' \<Rightarrow> for_each body st' xs)"

section \<open>Tool definitions and test cases\<close>

record InputSchema =
  properties :: "(string \<times> json) list option"
  required :: "string list option"

record ToolDefinition =
  name :: string
  tool_description :: "string option"
  inputSchema :: "InputSchema option"

datatype Status = Success | Error

record 'r ExpectedOutcome =
  status :: Status
  validationRules :: "'r list"

record 'r TestCase =
  id :: string
  toolName :: string
  description :: string
  naturalLanguageQuery :: string
  inputs :: json
  expectedOutcome :: "'r ExpectedOutcome"
  tc_warnings :: "string list option"

section \<open>The schema conformance checker: \<^verbatim>\<open>validateTestInputs\<close>\<close>

record InputCheck =
  isValid :: bool
  warnings :: "string list"

definition warn :: "string \<Rightarrow> InputCheck \<Rightarrow> InputCheck" where
  "warn w st = st\<lparr>warnings := warnings st @ [w]\<rparr>"

definition fail_with :: "string \<Rightarrow> InputCheck \<Rightarrow> InputCheck" where
  "fail_with w st = st\<lparr>isValid := False, warnings := warnings st @ [w]\<rparr>"

definition missing_required :: "string \<Rightarrow> string" where
  "missing_required requiredParam = ''Missing required input parameter: '' @ [CHR 0x27] @ requiredParam @ [CHR 0x27] @ ''.''"

definition not_in_schema :: "string \<Rightarrow> string" where
  "not_in_schema inputName =
     ''Input parameter '' @ [CHR 0x27] @ inputName @ [CHR 0x27] @ '' is not defined in the tool'' @ [CHR 0x27] @ ''s input schema.''"

definition type_mismatch :: "string \<Rightarrow> string \<Rightarrow> string \<Rightarrow> string" where
  "type_mismatch inputName expected actual =
     ''Input '' @ [CHR 0x27] @ inputName @ [CHR 0x27] @ '' type mismatch: Expected '' @ expected @ '', got '' @ actual @ ''.''"

text \<open>The enum warning: its template literal converts the value, then joins the enum; either may raise.\<close>

definition not_in_enum :: "string \<Rightarrow> json option \<Rightarrow> json list \<Rightarrow> exn + string" where
  "not_in_enum inputName inputValue enum =
     (case text_of inputValue of
        Inl e \<Rightarrow> Inl e
      | Inr value_text \<Rightarrow>
          (case join_values '', '' enum of
             Inl e \<Rightarrow> Inl e
           | Inr enum_text \<Rightarrow>
               Inr (''Input '' @ [CHR 0x27] @ inputName @ [CHR 0x27] @ '' value '' @ [CHR 0x27]
                    @ value_text @ [CHR 0x27] @ '' is not in the allowed enum values: [''
                    @ enum_text @ ''].'')))"

text \<open>The loop over the required parameters: one iteration. The operator \<^verbatim>\<open>in\<close>
  raises when the inputs are no object.\<close>

definition check_required :: "json \<Rightarrow> InputCheck \<Rightarrow> string \<Rightarrow> exn + InputCheck" where
  "check_required ins st requiredParam =
     (if \<not> is_object ins then Inl TypeError
      else if \<not> has_property requiredParam ins
      then Inr (fail_with (missing_required requiredParam) st)
      else Inr st)"

text \<open>The chain of type checks on one input, \<open>expectedType\<close> being \<^verbatim>\<open>schemaProperty.type\<close>.\<close>

definition type_check :: "string \<Rightarrow> json option \<Rightarrow> json option \<Rightarrow> InputCheck \<Rightarrow> InputCheck" where
  "type_check inputName inputValue expectedType st =
     (let actualType = typeof inputValue in
      if expectedType = Some (JStr ''string'') \<and> actualType \<noteq> ''string''
        then fail_with (type_mismatch inputName ''string'' actualType) st
      else if expectedType = Some (JStr ''number'') \<and> actualType \<noteq> ''number''
        then fail_with (type_mismatch inputName ''number'' actualType) st
      else if expectedType = Some (JStr ''boolean'') \<and> actualType \<noteq> ''boolean''
        then fail_with (type_mismatch inputName ''boolean'' actualType) st
      else if expectedType = Some (JStr ''object'')
        then (if actualType \<noteq> ''object'' \<or> isArray inputValue
              then fail_with (type_mismatch inputName ''object''
                     (if isArray inputValue then ''array'' else actualType)) st
              else st)
      else if expectedType = Some (JStr ''array'')
        then (if \<not> isArray inputValue
              then fail_with (type_mismatch inputName ''array'' actualType) st
              else st)
      else st)"

text \<open>The enum check on one input, \<open>enum\<close> being \<^verbatim>\<open>schemaProperty.enum\<close>.\<close>

definition enum_check :: "string \<Rightarrow> json option \<Rightarrow> json option \<Rightarrow> InputCheck \<Rightarrow> exn + InputCheck" where
  "enum_check inputName inputValue enum st =
     (case enum of
        Some (JArr allowed) \<Rightarrow>
          (if \<not> array_includes allowed inputValue
           then (case not_in_enum inputName inputValue allowed of
                   Inl e \<Rightarrow> Inl e
                 | Inr w \<Rightarrow> Inr (fail_with w st))
           else Inr st)
      | _ \<Rightarrow> Inr st)"

text \<open>
  The loop over the provided inputs: one iteration. The read
  \<^verbatim>\<open>schemaProperties[inputName]\<close> finds an own property of the schema's properties, else
  a member inherited from \<^verbatim>\<open>Object.prototype\<close>: that member is truthy and has neither
  \<open>type\<close> nor \<open>enum\<close>, so no check acts on the input.
\<close>

definition check_input :: "(string \<times> json) list \<Rightarrow> json \<Rightarrow> InputCheck \<Rightarrow> string \<Rightarrow> exn + InputCheck" where
  "check_input schemaProperties ins st inputName =
     (let inputValue = get_prop ins inputName;
          schemaProperty = map_of schemaProperties inputName
      in case schemaProperty of
           None \<Rightarrow>
             if inputName \<in> set object_prototype_names then Inr st
             else Inr (warn (not_in_schema inputName) st)
         | Some sp \<Rightarrow>
             if \<not> truthy schemaProperty then Inr (warn (not_in_schema inputName) st)
             else enum_check inputName inputValue (get_prop sp ''enum'')
                    (type_check inputName inputValue (get_prop sp ''type'') st))"

definition validateTestInputs :: "'r TestCase \<Rightarrow> ToolDefinition \<Rightarrow> exn + InputCheck" where
  "validateTestInputs testCase tool =
     (case inputSchema tool of
        None \<Rightarrow> Inr \<lparr>isValid = True, warnings = []\<rparr>
      | Some schema \<Rightarrow>
          (case properties schema of
             None \<Rightarrow> Inr \<lparr>isValid = True, warnings = []\<rparr>
           | Some schemaProperties \<Rightarrow>
               (let requiredParameters = (case required schema of None \<Rightarrow> [] | Some rs \<Rightarrow> rs);
                    st0 = \<lparr>isValid = True, warnings = []\<rparr>
                in case for_each (check_required (inputs testCase)) st0 requiredParameters of
                     Inl e \<Rightarrow> Inl e
                   | Inr st1 \<Rightarrow>
                       for_each (check_input schemaProperties (inputs testCase)) st1
                         (keys_in (inputs testCase)))))"

section \<open>The test case parser: \<^verbatim>\<open>parseResponse\<close>\<close>

text \<open>
  What the parser calls and the repository does not define: \<^verbatim>\<open>JSON.parse\<close> (a
  \<^verbatim>\<open>SyntaxError\<close> is \<open>Inl\<close> of its message), \<^verbatim>\<open>JSON.stringify\<close>, the match of
  the fence pattern on the response text (\<open>None\<close> for no match, else the text of its one
  capture group), the identifiers that successive calls of \<^verbatim>\<open>uuidv4\<close> return and
  the message the platform gives an exception.
\<close>

record Platform =
  json_parse :: "string \<Rightarrow> string + json"
  json_stringify :: "json \<Rightarrow> string"
  fence_match :: "string \<Rightarrow> string option"
  uuidv4 :: "nat \<Rightarrow> string"
  error_message :: "exn \<Rightarrow> string"

datatype Level = WarnLevel | ErrorLevel

text \<open>
  The state the parser works on: the test cases pushed so far (the value it returns), the
  lines written to the console and the number of identifiers drawn.
\<close>

record ParseState =
  validTestCases :: "json TestCase list"
  console :: "(Level \<times> string) list"
  uuid_calls :: nat

definition console_warn :: "string \<Rightarrow> ParseState \<Rightarrow> ParseState" where
  "console_warn msg st = st\<lparr>console := console st @ [(WarnLevel, msg)]\<rparr>"

definition console_error :: "string \<Rightarrow> ParseState \<Rightarrow> ParseState" where
  "console_error msg st = st\<lparr>console := console st @ [(ErrorLevel, msg)]\<rparr>"

definition tag :: "ToolDefinition \<Rightarrow> string" where
  "tag tool = ''['' @ name tool @ ''] ''"

text \<open>Readers for a property that the guards before them have found present.\<close>

definition string_value :: "json option \<Rightarrow> string" where
  "string_value v = (case v of Some (JStr s) \<Rightarrow> s | _ \<Rightarrow> [])"

definition object_value :: "json option \<Rightarrow> json" where
  "object_value v = (case v of Some x \<Rightarrow> x | None \<Rightarrow> JNull)"

definition status_value :: "json option \<Rightarrow> Status" where
  "status_value v = (if v = Some (JStr ''error'') then Error else Success)"

definition rules_value :: "json option \<Rightarrow> json list" where
  "rules_value v = (case v of Some (JArr rs) \<Rightarrow> rs | _ \<Rightarrow> [])"

text \<open>The test case built from an element that passed every guard, before its inputs are checked.\<close>

definition newTestCase :: "Platform \<Rightarrow> ToolDefinition \<Rightarrow> json \<Rightarrow> nat \<Rightarrow> json TestCase" where
  "newTestCase pf tool test k =
     \<lparr>id = uuidv4 pf k,
      toolName = name tool,
      description = string_value (get_prop test ''description''),
      naturalLanguageQuery = [],
      inputs = object_value (get_prop test ''inputs''),
      expectedOutcome =
        \<lparr>status = status_value (get_prop (object_value (get_prop test ''expectedOutcome'')) ''status''),
         validationRules =
           rules_value (get_prop (object_value (get_prop test ''expectedOutcome'')) ''validationRules'')\<rparr>,
      tc_warnings = None\<rparr>"

text \<open>The check of a success case and the attaching of its warnings; the check may raise.\<close>

definition attach_warnings :: "ToolDefinition \<Rightarrow> json TestCase \<Rightarrow> exn + json TestCase" where
  "attach_warnings tool tc =
     (if status (expectedOutcome tc) = Success
      then (case validateTestInputs tc tool of
              Inl e \<Rightarrow> Inl e
            | Inr validationResult \<Rightarrow>
                if warnings validationResult \<noteq> []
                then Inr (tc\<lparr>tc_warnings := Some (warnings validationResult)\<rparr>)
                else Inr tc)
      else Inr tc)"

text \<open>
  The callback of \<^verbatim>\<open>parsedJson.forEach\<close>: one element, with its index. An exception
  leaves the callback with the state as it is then.
\<close>

definition parse_element :: "Platform \<Rightarrow> ToolDefinition \<Rightarrow> json \<Rightarrow> nat \<Rightarrow> ParseState \<Rightarrow> exn \<times> ParseState + ParseState" where
  "parse_element pf tool test index st =
     (if \<not> truthy (Some test) \<or> typeof (Some test) \<noteq> ''object''
      then Inr (console_warn (tag tool @ ''Test case at index '' @ show_nat index
             @ '' is not a valid object. Skipping.'') st)
      else if \<not> truthy (get_prop test ''description'') \<or> typeof (get_prop test ''description'') \<noteq> ''string''
      then Inr (console_warn (tag tool @ ''Test case at index '' @ show_nat index
             @ '' is missing or has an invalid '' @ [CHR 0x27] @ ''description'' @ [CHR 0x27]
             @ ''. Skipping: '' @ json_stringify pf test) st)
      else if \<not> truthy (get_prop test ''inputs'') \<or> typeof (get_prop test ''inputs'') \<noteq> ''object''
      then Inr (console_warn (tag tool @ ''Test case '' @ [CHR 0x22] @ string_value (get_prop test ''description'')
             @ [CHR 0x22] @ '' is missing or has invalid '' @ [CHR 0x27] @ ''inputs'' @ [CHR 0x27]
             @ ''. Skipping: '' @ json_stringify pf test) st)
      else if \<not> truthy (get_prop test ''expectedOutcome'')
              \<or> typeof (get_prop test ''expectedOutcome'') \<noteq> ''object''
      then Inr (console_warn (tag tool @ ''Test case '' @ [CHR 0x22] @ string_value (get_prop test ''description'')
             @ [CHR 0x22] @ '' is missing or has invalid '' @ [CHR 0x27] @ ''expectedOutcome'' @ [CHR 0x27]
             @ ''. Skipping: '' @ json_stringify pf test) st)
      else if \<not> truthy (get_prop (object_value (get_prop test ''expectedOutcome'')) ''status'')
              \<or> (get_prop (object_value (get_prop test ''expectedOutcome'')) ''status'' \<noteq> Some (JStr ''success'')
                  \<and> get_prop (object_value (get_prop test ''expectedOutcome'')) ''status'' \<noteq> Some (JStr ''error''))
      then Inr (console_warn (tag tool @ ''Test case '' @ [CHR 0x22] @ string_value (get_prop test ''description'')
             @ [CHR 0x22] @ '' has missing or invalid '' @ [CHR 0x27] @ ''expectedOutcome.status'' @ [CHR 0x27]
             @ ''. Skipping: '' @ json_stringify pf test) st)
      else (case attach_warnings tool (newTestCase pf tool test (uuid_calls st)) of
              Inl e \<Rightarrow> Inl (e, st\<lparr>uuid_calls := Suc (uuid_calls st)\<rparr>)
            | Inr checked \<Rightarrow>
                Inr (st\<lparr>validTestCases := validTestCases st @ [checked],
                        uuid_calls := Suc (uuid_calls st)\<rparr>)))"

fun forEach :: "(json \<Rightarrow> nat \<Rightarrow> ParseState \<Rightarrow> exn \<times> ParseState + ParseState) \<Rightarrow> json list \<Rightarrow> nat \<Rightarrow> ParseState \<Rightarrow> exn \<times> ParseState + ParseState" where
  "forEach f [] index st = Inr st"
| "forEach f (x # xs) index st =
     (case f x index st of Inl raised \<Rightarrow> Inl raised | Inr st' \<Rightarrow> forEach f xs (Suc index) st')"

text \<open>
  The handler around the whole body of \<^verbatim>\<open>parseResponse\<close>: it writes two errors and
  returns an empty list, whatever had been pushed.
\<close>

definition unexpected_error :: "Platform \<Rightarrow> ToolDefinition \<Rightarrow> string \<Rightarrow> exn \<times> ParseState \<Rightarrow> ParseState" where
  "unexpected_error pf tool responseText raised =
     (case raised of
        (e, st) \<Rightarrow>
          (console_error (tag tool @ ''Response text was: '' @ responseText)
             (console_error (tag tool @ ''Unexpected error in parseResponse: '' @ error_message pf e) st))
          \<lparr>validTestCases := []\<rparr>)"

definition with_handler :: "Platform \<Rightarrow> ToolDefinition \<Rightarrow> string \<Rightarrow> exn \<times> ParseState + ParseState \<Rightarrow> ParseState" where
  "with_handler pf tool responseText outcome =
     (case outcome of
        Inl raised \<Rightarrow> unexpected_error pf tool responseText raised
      | Inr st \<Rightarrow> st)"

text \<open>
  The test \<^verbatim>\<open>jsonMatch && jsonMatch[1]\<close> and the text handed to \<^verbatim>\<open>JSON.parse\<close>:
  the fenced content when there is some, else the whole text.
\<close>

definition fenced :: "Platform \<Rightarrow> string \<Rightarrow> bool" where
  "fenced pf responseText =
     (case fence_match pf responseText of None \<Rightarrow> False | Some captured \<Rightarrow> captured \<noteq> [])"

definition jsonContent :: "Platform \<Rightarrow> string \<Rightarrow> string" where
  "jsonContent pf responseText =
     (case fence_match pf responseText of
        None \<Rightarrow> responseText
      | Some captured \<Rightarrow> if captured \<noteq> [] then captured else responseText)"

text \<open>The parsed value that is not an array but looks like one test case.\<close>

definition looks_like_test_case :: "json \<Rightarrow> bool" where
  "looks_like_test_case parsedJson =
     (truthy (Some parsedJson) \<and> typeof (Some parsedJson) = ''object''
      \<and> truthy (get_prop parsedJson ''description'')
      \<and> truthy (get_prop parsedJson ''inputs'')
      \<and> truthy (get_prop parsedJson ''expectedOutcome''))"

text \<open>
  \<^verbatim>\<open>parseResponse\<close>, started with \<open>k\<close> identifiers already drawn. Of the operations
  of its body only the check of a success case raises, inside the loop over the elements.
\<close>

definition parseResponse :: "Platform \<Rightarrow> nat \<Rightarrow> string \<Rightarrow> ToolDefinition \<Rightarrow> ParseState" where
  "parseResponse pf k responseText tool =
     (let st0 = \<lparr>validTestCases = [], console = [], uuid_calls = k\<rparr>;
          st1 = (if fenced pf responseText then st0
                 else console_warn (tag tool
                        @ ''LLM response did not contain JSON within backticks. Attempting to parse directly.'') st0)
      in case json_parse pf (jsonContent pf responseText) of
           Inl parseError_message \<Rightarrow>
             console_error (tag tool @ ''Raw response text was: '' @ responseText)
               (console_error (tag tool @ ''Failed to parse JSON from LLM response. Error: ''
                  @ parseError_message) st1)
         | Inr parsedJson \<Rightarrow>
             (case parsedJson of
                JArr elements \<Rightarrow>
                  with_handler pf tool responseText (forEach (parse_element pf tool) elements 0 st1)
              | _ \<Rightarrow>
                 (let st2 = console_warn (tag tool
                          @ ''Parsed JSON is not an array. LLM response might be malformed. Raw response: ''
                          @ responseText) st1
                  in if looks_like_test_case parsedJson
                     then with_handler pf tool responseText
                            (forEach (parse_element pf tool) [parsedJson] 0
                               (console_warn (tag tool
                                  @ ''Attempting to recover by wrapping single test case object in an array.'') st2))
                     else st2)))"

section \<open>The response validator: \<^verbatim>\<open>validateResponse\<close>\<close>

text \<open>
  The sources hold the declarations of \<^verbatim>\<open>ToolResponse\<close> and \<^verbatim>\<open>ValidationResult\<close>
  and the tests of the validator, not the validator. Its definitions below follow the
  specification, sections 3, 4.1, 4.4 and 4.5. A response carries its data when its status
  is success and its error when its status is error, so the two are the two constructors of
  one type.
\<close>

record ToolError =
  message :: string
  code :: "string option"

datatype ToolResponse = SuccessResponse json | ErrorResponse ToolError

record ValidationResult =
  valid :: bool
  errors :: "string list"

text \<open>Modelled from the spec: the rule kinds of section 3, a closed variant; every kind
  but \<open>Custom\<close> carries its target path, four of them an expected value, \<open>Custom\<close> an
  opaque predicate.\<close>

datatype RuleKind =
  HasProperty string
  | Contains string json
  | Matches string json
  | Equals string json
  | ArrayLength string json
  | Custom "json \<Rightarrow> bool"

text \<open>Modelled from the spec: a validation rule is its kind and its failure message.\<close>

record ValidationRule =
  kind :: RuleKind
  rule_message :: string

text \<open>Modelled from the spec: the steps a path is made of (section 9: a key or an index).\<close>

datatype step = Key string | Index nat

text \<open>Modelled from the spec: the segments of a path are separated by dots.\<close>

fun split_on :: "char \<Rightarrow> string \<Rightarrow> string list" where
  "split_on c [] = [[]]"
| "split_on c (x # xs) =
     (if x = c then [] # split_on c xs
      else (case split_on c xs of [] \<Rightarrow> [[x]] | s # ss \<Rightarrow> (x # s) # ss))"

definition is_digit :: "char \<Rightarrow> bool" where
  "is_digit c = ((48::nat) \<le> of_char c \<and> of_char c \<le> (57::nat))"

definition digits_value :: "string \<Rightarrow> nat" where
  "digits_value ds = foldl (\<lambda>n c. 10 * n + (of_char c - 48)) (0::nat) ds"

text \<open>Modelled from the spec: the tokenizer of the path resolver (sections 4.1 and 9). A
  segment is a key, optionally followed by one bracketed non-negative integer index; a
  segment of any other shape is taken as a key as it stands.\<close>

definition segment_steps :: "string \<Rightarrow> step list" where
  "segment_steps seg =
     (let key = takeWhile (\<lambda>c. c \<noteq> CHR ''['') seg;
          bracket = dropWhile (\<lambda>c. c \<noteq> CHR ''['') seg
      in case bracket of
           [] \<Rightarrow> [Key seg]
         | _ # rest \<Rightarrow>
             (if rest \<noteq> [] \<and> last rest = CHR '']'' \<and> butlast rest \<noteq> []
                 \<and> list_all is_digit (butlast rest)
              then (if key = [] then [] else [Key key]) @ [Index (digits_value (butlast rest))]
              else [Key seg]))"

definition tokenize :: "string \<Rightarrow> step list" where
  "tokenize path = concat (map segment_steps (split_on CHR ''.'' path))"

text \<open>Modelled from the spec: one step of the path resolver (section 4.1): a mapping is
  read by key, a sequence by index, and anything else is \<open>NOT_FOUND\<close>, which is \<open>None\<close>;
  a null that is there is \<open>Some JNull\<close>.\<close>

fun apply_step :: "json \<Rightarrow> step \<Rightarrow> json option" where
  "apply_step (JObj kvs) (Key k) = map_of kvs k"
| "apply_step (JArr xs) (Index i) = (if i < length xs then Some (xs ! i) else None)"
| "apply_step _ _ = None"

text \<open>Modelled from the spec: the path resolver (section 4.1), the steps applied left to
  right, halting at the first that finds nothing.\<close>

fun resolve_steps :: "json \<Rightarrow> step list \<Rightarrow> json option" where
  "resolve_steps v [] = Some v"
| "resolve_steps v (s # ss) =
     (case apply_step v s of None \<Rightarrow> None | Some w \<Rightarrow> resolve_steps w ss)"

definition resolve :: "json \<Rightarrow> string \<Rightarrow> json option" where
  "resolve root path = resolve_steps root (tokenize path)"

text \<open>Modelled from the spec: deep structural equality of the \<open>equals\<close> rule (section 4.4);
  two mappings are equal when they have the same keys with equal values, in any order.\<close>

fun deep_equal :: "json \<Rightarrow> json \<Rightarrow> bool" where
  "deep_equal (JArr xs) (JArr ys) = list_all2 deep_equal xs ys"
| "deep_equal (JObj kvs) (JObj kws) =
     (length kvs = length kws \<and>
      list_all (\<lambda>(k, v). case map_of kws k of None \<Rightarrow> False | Some w \<Rightarrow> deep_equal v w) kvs)"
| "deep_equal a b = (a = b)"

text \<open>Modelled from the spec: substring containment of the \<open>contains\<close> rule (section 4.4).\<close>

fun starts_with :: "string \<Rightarrow> string \<Rightarrow> bool" where
  "starts_with s [] = True"
| "starts_with [] (p # ps) = False"
| "starts_with (c # cs) (p # ps) = (c = p \<and> starts_with cs ps)"

fun contains_text :: "string \<Rightarrow> string \<Rightarrow> bool" where
  "contains_text [] p = (p = [])"
| "contains_text (c # cs) p = (starts_with (c # cs) p \<or> contains_text cs p)"

text \<open>Modelled from the spec: the regular expression built from the value of a
  \<open>matches\<close> rule (section 4.4). A pattern with no character of the expression syntax
  matches the texts it occurs in; every other pattern is left to the platform's engine
  \<open>re\<close>.\<close>

definition regexp_syntax :: "char list" where
  "regexp_syntax = [CHR 0x5C, CHR ''^'', CHR ''$'', CHR ''.'', CHR ''|'', CHR ''?'', CHR ''*'',
     CHR ''+'', CHR ''('', CHR '')'', CHR ''['', CHR '']'', CHR ''{'', CHR ''}'']"

definition regexp_test :: "(string \<Rightarrow> string \<Rightarrow> bool) \<Rightarrow> string \<Rightarrow> string \<Rightarrow> bool" where
  "regexp_test re pattern subject =
     (if list_all (\<lambda>c. c \<notin> set regexp_syntax) pattern
      then contains_text subject pattern
      else re pattern subject)"

text \<open>Modelled from the spec: the response rule evaluator (section 4.4), one case per kind;
  a target that resolves to \<open>NOT_FOUND\<close> fails the rule, and so does a value that has no
  text, since no evaluation raises.\<close>

fun evaluate_rule :: "(string \<Rightarrow> string \<Rightarrow> bool) \<Rightarrow> RuleKind \<Rightarrow> json \<Rightarrow> bool" where
  "evaluate_rule re (HasProperty target) fragment = (resolve fragment target \<noteq> None)"
| "evaluate_rule re (Contains target v) fragment =
     (case resolve fragment target of
        Some (JStr s) \<Rightarrow> (case v of JStr p \<Rightarrow> contains_text s p | _ \<Rightarrow> False)
      | Some (JArr xs) \<Rightarrow> list_ex (deep_equal v) xs
      | _ \<Rightarrow> False)"
| "evaluate_rule re (Matches target v) fragment =
     (case resolve fragment target of
        None \<Rightarrow> False
      | Some x \<Rightarrow>
          (case (to_text v, to_text x) of
             (Inr pattern, Inr subject) \<Rightarrow> regexp_test re pattern subject
           | _ \<Rightarrow> False))"
| "evaluate_rule re (Equals target v) fragment =
     (case resolve fragment target of None \<Rightarrow> False | Some x \<Rightarrow> deep_equal x v)"
| "evaluate_rule re (ArrayLength target v) fragment =
     (case resolve fragment target of
        Some (JArr xs) \<Rightarrow> v = JNum (show_nat (length xs))
      | _ \<Rightarrow> False)"
| "evaluate_rule re (Custom predicate) fragment = predicate fragment"

text \<open>Modelled from the spec: the run of the declared rules (section 4.5): every rule is
  evaluated against the same fragment, in declaration order; a failing rule adds its message
  and the run goes on. The run records which rule was evaluated against which fragment.\<close>

record RuleRun =
  messages :: "string list"
  evaluated :: "(ValidationRule \<times> json) list"

definition run_rule :: "(string \<Rightarrow> string \<Rightarrow> bool) \<Rightarrow> json \<Rightarrow> RuleRun \<Rightarrow> ValidationRule \<Rightarrow> RuleRun" where
  "run_rule re fragment run r =
     \<lparr>messages = messages run @ (if evaluate_rule re (kind r) fragment then [] else [rule_message r]),
      evaluated = evaluated run @ [(r, fragment)]\<rparr>"

definition run_rules :: "(string \<Rightarrow> string \<Rightarrow> bool) \<Rightarrow> ValidationRule list \<Rightarrow> json \<Rightarrow> RuleRun" where
  "run_rules re rules fragment = foldl (run_rule re fragment) \<lparr>messages = [], evaluated = []\<rparr> rules"

text \<open>Modelled from the spec: the synthetic root of the error path, the response's error
  under the key \<open>error\<close> (section 4.4).\<close>

definition error_root :: "ToolError \<Rightarrow> json" where
  "error_root e =
     JObj [(''error'',
            JObj ((''message'', JStr (message e))
                  # (case code e of None \<Rightarrow> [] | Some c \<Rightarrow> [(''code'', JStr c)])))]"

text \<open>Modelled from the spec: the validation orchestrator (section 4.5), its decision on
  the expected and the actual status.\<close>

definition orchestrate :: "(string \<Rightarrow> string \<Rightarrow> bool) \<Rightarrow> ToolResponse \<Rightarrow> ValidationRule TestCase \<Rightarrow> RuleRun" where
  "orchestrate re response testCase =
     (case (status (expectedOutcome testCase), response) of
        (Success, ErrorResponse e) \<Rightarrow>
          \<lparr>messages = [''Tool execution failed: '' @ message e], evaluated = []\<rparr>
      | (Error, SuccessResponse d) \<Rightarrow>
          \<lparr>messages = [''Expected tool to return an error, but got success.''], evaluated = []\<rparr>
      | (Success, SuccessResponse d) \<Rightarrow>
          run_rules re (validationRules (expectedOutcome testCase)) d
      | (Error, ErrorResponse e) \<Rightarrow>
          run_rules re (validationRules (expectedOutcome testCase)) (error_root e))"

text \<open>Modelled from the spec: \<^verbatim>\<open>validateResponse\<close>, the verdict of section 4.5: valid
  exactly when no error message was collected.\<close>

definition validateResponse :: "(string \<Rightarrow> string \<Rightarrow> bool) \<Rightarrow> ToolResponse \<Rightarrow> ValidationRule TestCase \<Rightarrow> ValidationResult" where
  "validateResponse re response testCase =
     \<lparr>valid = (messages (orchestrate re response testCase) = []),
      errors = messages (orchestrate re response testCase)\<rparr>"

section \<open>Notions the properties are stated with\<close>

text \<open>The warnings that the loop over the provided inputs adds for one input name.\<close>

definition input_warnings :: "(string \<times> json) list \<Rightarrow> json \<Rightarrow> string \<Rightarrow> string list" where
  "input_warnings schemaProperties ins inputName =
     (case check_input schemaProperties ins \<lparr>isValid = True, warnings = []\<rparr> inputName of
        Inl e \<Rightarrow> []
      | Inr st \<Rightarrow> warnings st)"

text \<open>A name is absent from the inputs when they neither have it nor inherit it.\<close>

definition absent :: "json \<Rightarrow> string \<Rightarrow> bool" where
  "absent ins r = (get_prop ins r = None \<and> r \<notin> set (inherited_names ins))"

text \<open>The required names of a schema, none when it lists none.\<close>

definition required_of :: "InputSchema \<Rightarrow> string list" where
  "required_of schema = (case required schema of None \<Rightarrow> [] | Some rs \<Rightarrow> rs)"

text \<open>
  The runtime kind of a value among string, number, boolean, object and array (null is of
  kind object), the declared types that are checked, and the kind a mismatch warning
  reports: the \<^verbatim>\<open>typeof\<close> name of the value, but \<open>array\<close> for an array met where an
  object is declared.
\<close>

definition runtime_kind :: "json option \<Rightarrow> string" where
  "runtime_kind v = (if isArray v then ''array'' else typeof v)"

definition declared_types :: "string list" where
  "declared_types = [''string'', ''number'', ''boolean'', ''object'', ''array'']"

definition reported_kind :: "string \<Rightarrow> json option \<Rightarrow> string" where
  "reported_kind expected v = (if expected = ''object'' \<and> isArray v then ''array'' else typeof v)"

text \<open>
  A structured object is a value that is there, is not null and has the runtime type
  object: a mapping or a sequence.
\<close>

definition is_structured_object :: "json option \<Rightarrow> bool" where
  "is_structured_object v =
     (case v of Some (JObj _) \<Rightarrow> True | Some (JArr _) \<Rightarrow> True | _ \<Rightarrow> False)"

definition is_string :: "json option \<Rightarrow> bool" where
  "is_string v = (case v of Some (JStr _) \<Rightarrow> True | _ \<Rightarrow> False)"

definition status_of :: "json \<Rightarrow> json option" where
  "status_of e =
     (case get_prop e ''expectedOutcome'' of None \<Rightarrow> None | Some eo \<Rightarrow> get_prop eo ''status'')"

text \<open>
  The rejection condition in the specification's words (section 4.3, step 4): the element
  is not a structured object, or its description is missing or not a string, or its inputs
  or its expected outcome is missing or not a structured object, or the status is missing
  or neither success nor error.
\<close>

definition rejected_as_stated :: "json \<Rightarrow> bool" where
  "rejected_as_stated e =
     (\<not> is_structured_object (Some e)
      \<or> \<not> is_string (get_prop e ''description'')
      \<or> \<not> is_structured_object (get_prop e ''inputs'')
      \<or> \<not> is_structured_object (get_prop e ''expectedOutcome'')
      \<or> (status_of e \<noteq> Some (JStr ''success'') \<and> status_of e \<noteq> Some (JStr ''error'')))"

text \<open>The same condition, with the empty description counted as a missing one.\<close>

definition rejected :: "json \<Rightarrow> bool" where
  "rejected e = (rejected_as_stated e \<or> get_prop e ''description'' = Some (JStr []))"

text \<open>A test case apart from its identifier, and the test case an accepted element becomes.\<close>

definition without_id :: "json TestCase \<Rightarrow> json TestCase" where
  "without_id tc = tc\<lparr>id := []\<rparr>"

definition materialized :: "Platform \<Rightarrow> ToolDefinition \<Rightarrow> json \<Rightarrow> json TestCase" where
  "materialized pf tool e =
     (case attach_warnings tool (newTestCase pf tool e 0) of
        Inl ex \<Rightarrow> without_id (newTestCase pf tool e 0)
      | Inr checked \<Rightarrow> without_id checked)"

text \<open>The check of an element's inputs returns: it raises no exception.\<close>

definition check_returns :: "Platform \<Rightarrow> ToolDefinition \<Rightarrow> json \<Rightarrow> bool" where
  "check_returns pf tool e =
     (case attach_warnings tool (newTestCase pf tool e 0) of Inl ex \<Rightarrow> False | Inr checked \<Rightarrow> True)"

text \<open>
  The warnings the checker finds for a test case, and the property that a test case
  carries warnings exactly when its status is success and the checker finds some for it,
  and then carries those.
\<close>

definition checker_warnings :: "ToolDefinition \<Rightarrow> json TestCase \<Rightarrow> string list" where
  "checker_warnings tool tc =
     (case validateTestInputs tc tool of Inl e \<Rightarrow> [] | Inr st \<Rightarrow> warnings st)"

definition checker_returns :: "ToolDefinition \<Rightarrow> json TestCase \<Rightarrow> bool" where
  "checker_returns tool tc =
     (case validateTestInputs tc tool of Inl e \<Rightarrow> False | Inr st \<Rightarrow> True)"

definition warnings_as_checked :: "ToolDefinition \<Rightarrow> json TestCase \<Rightarrow> bool" where
  "warnings_as_checked tool tc =
     (tc_warnings tc =
        (if status (expectedOutcome tc) = Success \<and> checker_warnings tool tc \<noteq> []
         then Some (checker_warnings tool tc) else None)
      \<and> (status (expectedOutcome tc) = Success \<longrightarrow> checker_returns tool tc))"

text \<open>The target path of a rule kind; the custom kind has none.\<close>

fun target_of :: "RuleKind \<Rightarrow> string option" where
  "target_of (HasProperty t) = Some t"
| "target_of (Contains t v) = Some t"
| "target_of (Matches t v) = Some t"
| "target_of (Equals t v) = Some t"
| "target_of (ArrayLength t v) = Some t"
| "target_of (Custom p) = None"

definition is_mapping :: "json \<Rightarrow> bool" where
  "is_mapping v = (case v of JObj _ \<Rightarrow> True | _ \<Rightarrow> False)"

text \<open>
  A value whose conversion to text raises no exception: no object with an own \<open>toString\<close>,
  and no array that holds one. The inputs and the schema for which no enum warning can raise.
\<close>

fun plain :: "json \<Rightarrow> bool" where
  "plain (JObj kvs) = (map_of kvs ''toString'' = None)"
| "plain (JArr xs) = list_all plain xs"
| "plain v = True"

definition plain_inputs :: "json \<Rightarrow> bool" where
  "plain_inputs ins = list_all (\<lambda>(k, v). plain v) (own_entries ins)"

definition plain_enums :: "(string \<times> json) list \<Rightarrow> bool" where
  "plain_enums schemaProperties =
     list_all (\<lambda>(k, sp). case get_prop sp ''enum'' of Some (JArr allowed) \<Rightarrow> list_all plain allowed | _ \<Rightarrow> True)
       schemaProperties"

definition plain_schema :: "ToolDefinition \<Rightarrow> bool" where
  "plain_schema tool =
     (case inputSchema tool of
        None \<Rightarrow> True
      | Some schema \<Rightarrow>
          (case properties schema of None \<Rightarrow> True | Some schemaProperties \<Rightarrow> plain_enums schemaProperties))"

section \<open>Examples\<close>

text \<open>
  The tool of the generator's tests, a tool whose schema lists a required name and declares
  no properties, and a platform whose parser answers every text with one fixed result and
  whose other functions answer with fixed texts.
\<close>

definition validationProperties :: "(string \<times> json) list" where
  "validationProperties =
     [(''paramString'', JObj [(''type'', JStr ''string'')]),
      (''paramNumber'', JObj [(''type'', JStr ''number'')]),
      (''paramBoolean'', JObj [(''type'', JStr ''boolean'')]),
      (''paramObject'', JObj [(''type'', JStr ''object'')]),
      (''paramArray'', JObj [(''type'', JStr ''array'')]),
      (''paramEnum'', JObj [(''type'', JStr ''string''),
                            (''enum'', JArr [JStr ''A'', JStr ''B'', JStr ''C''])]),
      (''optionalParam'', JObj [(''type'', JStr ''string'')])]"

definition validationSchema :: InputSchema where
  "validationSchema =
     \<lparr>properties = Some validationProperties,
      required = Some [''paramString'', ''paramNumber'', ''paramEnum'']\<rparr>"

definition validationTool :: ToolDefinition where
  "validationTool =
     \<lparr>name = ''validationTool'',
      tool_description = Some ''A tool to test input validation.'',
      inputSchema = Some validationSchema\<rparr>"

definition bareSchema :: InputSchema where
  "bareSchema = \<lparr>properties = None, required = Some [''location'']\<rparr>"

definition bareTool :: ToolDefinition where
  "bareTool = \<lparr>name = ''getWeather'', tool_description = None, inputSchema = Some bareSchema\<rparr>"

definition answering :: "string + json \<Rightarrow> Platform" where
  "answering r =
     \<lparr>json_parse = (\<lambda>text. r), json_stringify = (\<lambda>v. ''(json)''),
      fence_match = (\<lambda>text. None), uuidv4 = show_nat,
      error_message = (\<lambda>e. ''Cannot convert object to primitive value'')\<rparr>"

definition test_case_with :: "json \<Rightarrow> Status \<Rightarrow> 'r list \<Rightarrow> 'r TestCase" where
  "test_case_with ins st rules =
     \<lparr>id = ''1'', toolName = ''test'', description = ''desc'', naturalLanguageQuery = [],
      inputs = ins, expectedOutcome = \<lparr>status = st, validationRules = rules\<rparr>,
      tc_warnings = None\<rparr>"

definition element :: "string \<Rightarrow> json \<Rightarrow> string \<Rightarrow> json" where
  "element d ins st =
     JObj [(''description'', JStr d), (''inputs'', ins),
           (''expectedOutcome'', JObj [(''status'', JStr st)])]"

section \<open>Properties of the schema conformance checker\<close>

lemma warnings_warn [simp]: "warnings (warn w st) = warnings st @ [w]"
  by (simp add: warn_def)

lemma warnings_fail_with [simp]: "warnings (fail_with w st) = warnings st @ [w]"
  by (simp add: fail_with_def)

lemma absent_iff: "absent ins r \<longleftrightarrow> \<not> has_property r ins"
  by (simp add: absent_def has_property_def)

lemma required_loop:
  "for_each (check_required ins) st rs = Inr st' \<Longrightarrow>
     warnings st' = warnings st @ map missing_required (filter (absent ins) rs)"
proof (induction rs arbitrary: st)
  case Nil
  then show ?case by simp
next
  case (Cons r rs)
  show ?case
  proof (cases "check_required ins st r")
    case (Inl e)
    with Cons.prems show ?thesis by simp
  next
    case (Inr st1)
    with Cons.prems have "for_each (check_required ins) st1 rs = Inr st'"
      by simp
    from Cons.IH [OF this] Inr show ?thesis
      by (auto simp: check_required_def absent_iff split: if_splits)
  qed
qed

lemma required_loop_returns:
  "is_object ins \<Longrightarrow> \<exists>st'. for_each (check_required ins) st rs = Inr st'"
  by (induction rs arbitrary: st) (simp_all add: check_required_def)

lemma type_check_merge:
  "type_check n v t st =
     st\<lparr>isValid := isValid st \<and> isValid (type_check n v t \<lparr>isValid = True, warnings = []\<rparr>),
        warnings := warnings st @ warnings (type_check n v t \<lparr>isValid = True, warnings = []\<rparr>)\<rparr>"
  by (simp add: type_check_def Let_def fail_with_def)

lemma enum_check_merge:
  "enum_check n v e st =
     (case enum_check n v e \<lparr>isValid = True, warnings = []\<rparr> of
        Inl x \<Rightarrow> Inl x
      | Inr r \<Rightarrow> Inr (st\<lparr>isValid := isValid st \<and> isValid r, warnings := warnings st @ warnings r\<rparr>))"
  by (simp add: enum_check_def fail_with_def split: option.splits json.splits sum.splits)

lemma check_input_merge:
  "check_input P ins st n =
     (case check_input P ins \<lparr>isValid = True, warnings = []\<rparr> n of
        Inl x \<Rightarrow> Inl x
      | Inr r \<Rightarrow> Inr (st\<lparr>isValid := isValid st \<and> isValid r, warnings := warnings st @ warnings r\<rparr>))"
proof (cases "map_of P n")
  case None
  then show ?thesis
    by (simp add: check_input_def warn_def)
next
  case (Some sp)
  show ?thesis
  proof (cases "truthy (Some sp)")
    case False
    with Some show ?thesis
      by (simp add: check_input_def warn_def)
  next
    case True
    let ?t = "type_check n (get_prop ins n) (get_prop sp ''type'')"
    let ?e = "enum_check n (get_prop ins n) (get_prop sp ''enum'')"
    have a: "check_input P ins st n = ?e (?t st)" for st
      using Some True by (simp add: check_input_def Let_def)
    show ?thesis
    proof (cases "?e \<lparr>isValid = True, warnings = []\<rparr>")
      case (Inl x)
      then show ?thesis
        using enum_check_merge [of n "get_prop ins n" "get_prop sp ''enum''" "?t st"]
          enum_check_merge [of n "get_prop ins n" "get_prop sp ''enum''" "?t \<lparr>isValid = True, warnings = []\<rparr>"]
        by (simp add: a)
    next
      case (Inr r)
      then show ?thesis
        using enum_check_merge [of n "get_prop ins n" "get_prop sp ''enum''" "?t st"]
          enum_check_merge [of n "get_prop ins n" "get_prop sp ''enum''" "?t \<lparr>isValid = True, warnings = []\<rparr>"]
          type_check_merge [of n "get_prop ins n" "get_prop sp ''type''" st]
        by (simp add: a)
    qed
  qed
qed

lemma warnings_check_input:
  "check_input P ins st n = Inr st' \<Longrightarrow> warnings st' = warnings st @ input_warnings P ins n"
  using check_input_merge [of P ins st n]
  by (auto simp: input_warnings_def split: sum.splits)

lemma input_loop:
  "for_each (check_input P ins) st ks = Inr st' \<Longrightarrow>
     warnings st' = warnings st @ concat (map (input_warnings P ins) ks)"
proof (induction ks arbitrary: st)
  case Nil
  then show ?case by simp
next
  case (Cons k ks)
  show ?case
  proof (cases "check_input P ins st k")
    case (Inl e)
    with Cons.prems show ?thesis by simp
  next
    case (Inr st1)
    with Cons.prems have "for_each (check_input P ins) st1 ks = Inr st'"
      by simp
    from Cons.IH [OF this] warnings_check_input [OF Inr] show ?thesis
      by simp
  qed
qed

lemma type_check_start:
  "w \<in> set (warnings (type_check n v t st)) \<Longrightarrow>
     w \<in> set (warnings st) \<or> take 6 w = ''Input ''"
  by (auto simp: type_check_def Let_def fail_with_def type_mismatch_def split: if_splits)

lemma enum_check_start:
  "enum_check n v e st = Inr st' \<Longrightarrow> w \<in> set (warnings st') \<Longrightarrow>
     w \<in> set (warnings st) \<or> take 6 w = ''Input ''"
  by (auto simp: enum_check_def fail_with_def not_in_enum_def
        split: option.splits json.splits if_splits sum.splits)

lemma input_warnings_start:
  assumes "w \<in> set (input_warnings P ins n)"
  shows "take 6 w = ''Input ''"
proof (cases "map_of P n")
  case None
  with assms show ?thesis
    by (simp add: input_warnings_def check_input_def warn_def not_in_schema_def split: if_splits)
next
  case (Some sp)
  show ?thesis
  proof (cases "truthy (Some sp)")
    case False
    with Some assms show ?thesis
      by (simp add: input_warnings_def check_input_def warn_def not_in_schema_def)
  next
    case True
    let ?r = "enum_check n (get_prop ins n) (get_prop sp ''enum'')
            (type_check n (get_prop ins n) (get_prop sp ''type'') \<lparr>isValid = True, warnings = []\<rparr>)"
    have c: "check_input P ins \<lparr>isValid = True, warnings = []\<rparr> n = ?r"
      using Some True by (simp add: check_input_def Let_def)
    show ?thesis
    proof (cases ?r)
      case (Inl x)
      with c assms show ?thesis by (simp add: input_warnings_def)
    next
      case (Inr st')
      with c assms have w: "w \<in> set (warnings st')" by (simp add: input_warnings_def)
      from enum_check_start [OF Inr w] show ?thesis
        using type_check_start [of w n "get_prop ins n" "get_prop sp ''type''"
            "\<lparr>isValid = True, warnings = []\<rparr>"]
        by auto
    qed
  qed
qed

lemma missing_required_start: "take 6 (missing_required r) = ''Missin''"
  by (simp add: missing_required_def)

lemma missing_required_inj: "missing_required r = missing_required r' \<Longrightarrow> r = r'"
  by (simp add: missing_required_def)

lemma count_missing:
  "distinct rs \<Longrightarrow> r \<in> set rs \<Longrightarrow> Q r \<Longrightarrow>
     count_list (map missing_required (filter Q rs)) (missing_required r) = 1"
proof (induction rs)
  case Nil
  then show ?case by simp
next
  case (Cons a rs)
  show ?case
  proof (cases "a = r")
    case True
    with Cons.prems have "r \<notin> set rs" by simp
    then have "missing_required r \<notin> set (map missing_required (filter Q rs))"
      by (auto dest: missing_required_inj)
    then have "count_list (map missing_required (filter Q rs)) (missing_required r) = 0"
      by (simp add: count_list_0_iff)
    with True Cons.prems show ?thesis by simp
  next
    case False
    with Cons show ?thesis by (auto dest: missing_required_inj)
  qed
qed

lemma validateTestInputs_warnings:
  assumes "inputSchema tool = Some schema" and "properties schema = Some props"
    and "validateTestInputs tc tool = Inr result"
  shows "warnings result =
           map missing_required (filter (absent (inputs tc)) (required_of schema))
           @ concat (map (input_warnings props (inputs tc)) (keys_in (inputs tc)))"
proof -
  from assms obtain st1 where
    1: "for_each (check_required (inputs tc)) \<lparr>isValid = True, warnings = []\<rparr> (required_of schema) = Inr st1"
    and 2: "for_each (check_input props (inputs tc)) st1 (keys_in (inputs tc)) = Inr result"
    by (auto simp: validateTestInputs_def Let_def required_of_def split: sum.splits)
  from required_loop [OF 1] input_loop [OF 2] show ?thesis
    by simp
qed

text \<open>When the conversion to text returns, and with it the checker.\<close>

lemma plain_text:
  "plain v \<Longrightarrow> \<exists>t. to_text v = Inr t"
  "list_all plain xs \<Longrightarrow> \<exists>ts. element_texts xs = Inr ts"
proof (induction v and xs rule: to_text_element_texts.induct)
  case (5 xs)
  then show ?case by (auto split: sum.splits)
next
  case (8 x xs)
  then show ?case by (cases "x = JNull") (auto split: sum.splits)
qed simp_all

lemma enum_check_returns:
  assumes "case v of None \<Rightarrow> True | Some x \<Rightarrow> plain x"
    and "case e of Some (JArr allowed) \<Rightarrow> list_all plain allowed | _ \<Rightarrow> True"
  shows "\<exists>st'. enum_check n v e st = Inr st'"
proof (cases e)
  case None
  then show ?thesis by (simp add: enum_check_def)
next
  case (Some j)
  show ?thesis
  proof (cases j)
    case (JArr allowed)
    with Some assms(2) have "list_all plain allowed" by simp
    then obtain ts where ts: "element_texts allowed = Inr ts"
      using plain_text(2) by blast
    from assms(1) obtain t where t: "text_of v = Inr t"
    proof (cases v)
      case None
      then show ?thesis using that by (simp add: text_of_def)
    next
      case (Some x)
      with assms(1) have "plain x" by simp
      then obtain t where "to_text x = Inr t" using plain_text(1) by blast
      with Some show ?thesis using that by (simp add: text_of_def)
    qed
    show ?thesis
      using Some JArr ts t by (simp add: enum_check_def not_in_enum_def join_values_def)
  qed (simp_all add: Some enum_check_def)
qed

lemma own_entry_plain:
  assumes "map_of (own_entries ins) k = Some v" and "plain_inputs ins"
  shows "plain v"
proof -
  from assms(1) have "(k, v) \<in> set (own_entries ins)" by (rule map_of_SomeD)
  with assms(2) show ?thesis by (auto simp: plain_inputs_def list_all_iff)
qed

lemma get_prop_own:
  assumes "get_prop ins k = Some v" and "plain_inputs ins"
  shows "plain v"
proof (cases "map_of (own_entries ins) k = Some v")
  case True
  then show ?thesis using assms(2) by (rule own_entry_plain)
next
  case False
  with assms(1) have "\<exists>n. v = JNum n"
    by (cases ins) (auto simp: get_prop_def split: if_splits)
  then show ?thesis by auto
qed

lemma check_input_returns:
  assumes "plain_inputs ins" and "plain_enums P"
  shows "\<exists>st'. check_input P ins st n = Inr st'"
proof (cases "map_of P n")
  case None
  then show ?thesis by (simp add: check_input_def)
next
  case (Some sp)
  then have "(n, sp) \<in> set P" by (rule map_of_SomeD)
  with assms(2) have e: "case get_prop sp ''enum'' of Some (JArr allowed) \<Rightarrow> list_all plain allowed | _ \<Rightarrow> True"
    by (auto simp: plain_enums_def list_all_iff)
  have v: "case get_prop ins n of None \<Rightarrow> True | Some x \<Rightarrow> plain x"
    using get_prop_own [OF _ assms(1)] by (auto split: option.splits)
  from enum_check_returns [OF v e] Some show ?thesis
    by (simp add: check_input_def Let_def)
qed

lemma input_loop_returns:
  "plain_inputs ins \<Longrightarrow> plain_enums P \<Longrightarrow> \<exists>st'. for_each (check_input P ins) st ks = Inr st'"
proof (induction ks arbitrary: st)
  case Nil
  show ?case by simp
next
  case (Cons k ks)
  from check_input_returns [OF Cons.prems, of st k] obtain st1
    where "check_input P ins st k = Inr st1" by blast
  with Cons.IH [OF Cons.prems, of st1] show ?case by simp
qed

lemma validateTestInputs_returns:
  assumes "inputSchema tool = Some schema" and "properties schema = Some props"
    and "is_object (inputs tc)" and "plain_inputs (inputs tc)" and "plain_enums props"
  shows "\<exists>result. validateTestInputs tc tool = Inr result"
proof -
  from required_loop_returns [OF assms(3)] obtain st1 where
    "for_each (check_required (inputs tc)) \<lparr>isValid = True, warnings = []\<rparr> (required_of schema) = Inr st1"
    by blast
  with input_loop_returns [OF assms(4,5), of st1 "keys_in (inputs tc)"] assms(1,2)
  show ?thesis
    by (auto simp: validateTestInputs_def Let_def required_of_def)
qed

lemma type_check_kinds:
  assumes "t \<in> set declared_types"
  shows "type_check n v (Some (JStr t)) st =
           (if runtime_kind v = t then st
            else fail_with (type_mismatch n t (reported_kind t v)) st)"
proof -
  from assms consider "t = ''string''" | "t = ''number''" | "t = ''boolean''"
    | "t = ''object''" | "t = ''array''"
    by (auto simp: declared_types_def)
  then show ?thesis
  proof cases
    case 1 then show ?thesis
      by (cases v rule: typeof.cases)
         (simp_all add: type_check_def runtime_kind_def reported_kind_def)
  next
    case 2 then show ?thesis
      by (cases v rule: typeof.cases)
         (simp_all add: type_check_def runtime_kind_def reported_kind_def)
  next
    case 3 then show ?thesis
      by (cases v rule: typeof.cases)
         (simp_all add: type_check_def runtime_kind_def reported_kind_def)
  next
    case 4 then show ?thesis
      by (cases v rule: typeof.cases)
         (simp_all add: type_check_def runtime_kind_def reported_kind_def)
  next
    case 5 then show ?thesis
      by (cases v rule: typeof.cases)
         (simp_all add: type_check_def runtime_kind_def reported_kind_def)
  qed
qed

lemma check_input_declared:
  assumes "map_of P n = Some sp" and "truthy (Some sp)"
  shows "check_input P ins st n =
           enum_check n (get_prop ins n) (get_prop sp ''enum'')
             (type_check n (get_prop ins n) (get_prop sp ''type'') st)"
  using assms by (simp add: check_input_def Let_def)

text \<open>
  Inherited names: a required name that every object inherits counts as present, and an
  input whose name the schema's properties only inherit is checked against the inherited
  member, which declares nothing. So neither draws a warning.
\<close>

lemma inherited_names_unreported:
  "validateTestInputs
     (test_case_with (JObj [(''constructor'', JStr ''x'')]) Success ([] :: json list))
     \<lparr>name = ''tool'', tool_description = None,
      inputSchema = Some \<lparr>properties = Some [], required = Some [''toString'']\<rparr>\<rparr>
   = Inr \<lparr>isValid = True, warnings = []\<rparr>"
  by (simp add: validateTestInputs_def test_case_with_def check_required_def has_property_def
        get_prop_def object_prototype_names_def keys_in_def check_input_def)

text \<open>
  C5, as amended. When the tool's schema declares a properties map and the checker returns
  for the inputs, its warnings are: one warning
  \<open>Missing required input parameter: '<name>'.\<close> for every listed required name that
  the inputs neither have nor inherit, in the order of the list, and after them the warnings
  of the provided inputs. When the required list names nothing twice, each such name has
  exactly one such warning in the whole sequence. The checker returns whenever the inputs
  are an object or an array and neither an input value nor a member of a declared enum is an
  object with an own \<open>toString\<close> or an array that holds one.
\<close>

theorem required_parameters_reported:
  assumes "inputSchema tool = Some schema" and "properties schema = Some props"
  shows "(validateTestInputs tc tool = Inr result \<longrightarrow>
            warnings result =
              map missing_required (filter (absent (inputs tc)) (required_of schema))
              @ concat (map (input_warnings props (inputs tc)) (keys_in (inputs tc)))
            \<and> (distinct (required_of schema) \<longrightarrow>
                 (\<forall>r \<in> set (required_of schema). absent (inputs tc) r \<longrightarrow>
                    count_list (warnings result) (missing_required r) = 1)))
         \<and> (is_object (inputs tc) \<and> plain_inputs (inputs tc) \<and> plain_enums props \<longrightarrow>
              (\<exists>returned. validateTestInputs tc tool = Inr returned))
         \<and> missing_required r =
             ''Missing required input parameter: '' @ [CHR 0x27] @ r @ [CHR 0x27] @ ''.''"
proof (intro conjI impI ballI)
  show "\<exists>returned. validateTestInputs tc tool = Inr returned"
    if "is_object (inputs tc) \<and> plain_inputs (inputs tc) \<and> plain_enums props"
    using that validateTestInputs_returns [OF assms] by blast
  show "missing_required r =
          ''Missing required input parameter: '' @ [CHR 0x27] @ r @ [CHR 0x27] @ ''.''"
    by (simp add: missing_required_def)
next
  assume v: "validateTestInputs tc tool = Inr result"
  show eq: "warnings result =
              map missing_required (filter (absent (inputs tc)) (required_of schema))
              @ concat (map (input_warnings props (inputs tc)) (keys_in (inputs tc)))"
    by (rule validateTestInputs_warnings [OF assms v])
  fix q
  assume d: "distinct (required_of schema)" and q: "q \<in> set (required_of schema)"
    and a: "absent (inputs tc) q"
  have "missing_required q
          \<notin> set (concat (map (input_warnings props (inputs tc)) (keys_in (inputs tc))))"
  proof
    assume "missing_required q
              \<in> set (concat (map (input_warnings props (inputs tc)) (keys_in (inputs tc))))"
    then obtain k where "missing_required q \<in> set (input_warnings props (inputs tc) k)"
      by auto
    from input_warnings_start [OF this] missing_required_start [of q] show False
      by simp
  qed
  then have "count_list (concat (map (input_warnings props (inputs tc)) (keys_in (inputs tc))))
               (missing_required q) = 0"
    by (simp add: count_list_0_iff)
  with count_missing [OF d q, of "absent (inputs tc)"] a eq
  show "count_list (warnings result) (missing_required q) = 1"
    by simp
qed

theorem required_parameters_reported_witness:
  "validateTestInputs
       (test_case_with (JObj [(''paramNumber'', JNum ''123''), (''paramEnum'', JStr ''A'')]) Success
          ([] :: json list))
       validationTool
     = Inr \<lparr>isValid = False,
            warnings = [''Missing required input parameter: '' @ [CHR 0x27] @ ''paramString''
                          @ [CHR 0x27] @ ''.'']\<rparr>
   \<and> count_list
        [''Missing required input parameter: '' @ [CHR 0x27] @ ''paramString'' @ [CHR 0x27] @ ''.'']
        (missing_required ''paramString'') = 1
   \<and> absent (JObj [(''paramNumber'', JNum ''123''), (''paramEnum'', JStr ''A'')]) ''paramString''"
proof -
  let ?ins = "JObj [(''paramNumber'', JNum ''123''), (''paramEnum'', JStr ''A'')]"
  let ?tc = "test_case_with ?ins Success ([] :: json list)"
  let ?result = "\<lparr>isValid = False,
            warnings = [''Missing required input parameter: '' @ [CHR 0x27] @ ''paramString''
                          @ [CHR 0x27] @ ''.'']\<rparr>"
  have 1: "inputSchema validationTool = Some validationSchema"
    by (simp add: validationTool_def)
  have 2: "properties validationSchema = Some validationProperties"
    by (simp add: validationSchema_def)
  have 3: "distinct (required_of validationSchema)"
    by (simp add: required_of_def validationSchema_def)
  have 4: "''paramString'' \<in> set (required_of validationSchema)"
    by (simp add: required_of_def validationSchema_def)
  have 5: "absent (inputs ?tc) ''paramString''"
    by (simp add: test_case_with_def absent_def get_prop_def object_prototype_names_def)
  have 6: "validateTestInputs ?tc validationTool = Inr ?result"
    by (simp add: validateTestInputs_def validationTool_def validationSchema_def
          validationProperties_def test_case_with_def check_required_def has_property_def
          get_prop_def object_prototype_names_def keys_in_def check_input_def type_check_def
          enum_check_def array_includes_def fail_with_def missing_required_def Let_def)
  note t = required_parameters_reported [OF 1 2, of ?tc ?result "''paramString''"]
  from t 6 have "distinct (required_of validationSchema) \<longrightarrow>
      (\<forall>r \<in> set (required_of validationSchema). absent (inputs ?tc) r \<longrightarrow>
         count_list (warnings ?result) (missing_required r) = 1)"
    by blast
  with 3 4 5 have "count_list (warnings ?result) (missing_required ''paramString'') = 1"
    by blast
  then have 7: "count_list
        [''Missing required input parameter: '' @ [CHR 0x27] @ ''paramString'' @ [CHR 0x27] @ ''.'']
        (missing_required ''paramString'') = 1"
    by simp
  from 5 have 8: "absent ?ins ''paramString''"
    by (simp add: test_case_with_def)
  from 6 7 8 show ?thesis by blast
qed

text \<open>
  C5 as stated, for every schema, fails for a schema that lists \<open>location\<close> as required
  and declares no properties map: the inputs lack the name and no warning reports it.
\<close>

theorem required_unreported_without_properties:
  "inputSchema bareTool = Some bareSchema
   \<and> ''location'' \<in> set (required_of bareSchema)
   \<and> absent (JObj [(''unit'', JStr ''celsius'')]) ''location''
   \<and> validateTestInputs
        (test_case_with (JObj [(''unit'', JStr ''celsius'')]) Success ([] :: json list)) bareTool
       = Inr \<lparr>isValid = True, warnings = []\<rparr>"
  by (simp add: bareTool_def bareSchema_def required_of_def absent_def get_prop_def
        object_prototype_names_def validateTestInputs_def)

text \<open>
  C9. For a tool that has no input schema, or whose schema declares no properties map, the
  checker returns, valid and with no warning, whatever the inputs are: it returns before it
  looks at the required names.
\<close>

theorem no_properties_no_warnings:
  assumes "inputSchema tool = None
           \<or> (\<exists>schema. inputSchema tool = Some schema \<and> properties schema = None)"
  shows "validateTestInputs tc tool = Inr \<lparr>isValid = True, warnings = []\<rparr>"
  using assms by (auto simp: validateTestInputs_def)

theorem no_properties_no_warnings_witness:
  "required_of bareSchema = [''location'']
   \<and> validateTestInputs (test_case_with (JObj []) Success ([] :: json list)) bareTool
       = Inr \<lparr>isValid = True, warnings = []\<rparr>"
proof -
  have "inputSchema bareTool = None
        \<or> (\<exists>schema. inputSchema bareTool = Some schema \<and> properties schema = None)"
    by (simp add: bareTool_def bareSchema_def)
  from no_properties_no_warnings [OF this, of "test_case_with (JObj []) Success ([] :: json list)"]
  show ?thesis
    by (simp add: required_of_def bareSchema_def)
qed

text \<open>
  C6, as amended. For an input key whose name the schema declares with one of the types string,
  number, boolean, object, array, the type check passes exactly when the runtime kind of the
  value is the declared type, where an array is of kind array and so never passes for a
  declared object; on a mismatch it adds exactly the warning
  \<open>Input '<name>' type mismatch: Expected <expected>, got <actual>.\<close>, in which the
  actual kind is the \<^verbatim>\<open>typeof\<close> name of the value, or \<open>array\<close> for an array met
  where an object is declared. The enum check follows.
\<close>

theorem declared_type_against_runtime_kind:
  assumes "inputName \<in> set (keys_in ins)"
    and "map_of schemaProperties inputName = Some sp" and "truthy (Some sp)"
    and "get_prop sp ''type'' = Some (JStr t)" and "t \<in> set declared_types"
  shows "check_input schemaProperties ins st inputName =
           enum_check inputName (get_prop ins inputName) (get_prop sp ''enum'')
             (if runtime_kind (get_prop ins inputName) = t then st
              else fail_with (type_mismatch inputName t (reported_kind t (get_prop ins inputName))) st)
         \<and> (isArray v \<longrightarrow> runtime_kind v \<noteq> ''object'')
         \<and> type_mismatch inputName t actual =
             ''Input '' @ [CHR 0x27] @ inputName @ [CHR 0x27] @ '' type mismatch: Expected '' @ t
               @ '', got '' @ actual @ ''.''"
  using assms
  by (simp add: check_input_declared type_check_kinds runtime_kind_def type_mismatch_def)

theorem declared_type_against_runtime_kind_witness:
  "check_input validationProperties (JObj [(''paramString'', JNum ''123'')])
       \<lparr>isValid = True, warnings = []\<rparr> ''paramString''
     = Inr \<lparr>isValid = False,
            warnings = [''Input '' @ [CHR 0x27] @ ''paramString'' @ [CHR 0x27]
                          @ '' type mismatch: Expected string, got number.'']\<rparr>
   \<and> runtime_kind (Some (JArr [])) = ''array''"
proof -
  have 1: "map_of validationProperties ''paramString'' = Some (JObj [(''type'', JStr ''string'')])"
    by (simp add: validationProperties_def)
  have 2: "truthy (Some (JObj [(''type'', JStr ''string'')]))"
    by simp
  have 3: "get_prop (JObj [(''type'', JStr ''string'')]) ''type'' = Some (JStr ''string'')"
    by (simp add: get_prop_def)
  have 4: "''string'' \<in> set declared_types"
    by (simp add: declared_types_def)
  have 0: "''paramString'' \<in> set (keys_in (JObj [(''paramString'', JNum ''123'')]))"
    by (simp add: keys_in_def)
  from declared_type_against_runtime_kind [OF 0 1 2 3 4,
      of "\<lparr>isValid = True, warnings = []\<rparr>" "Some (JArr [])" "''number''"]
  show ?thesis
    by (simp add: get_prop_def runtime_kind_def reported_kind_def enum_check_def type_mismatch_def
          fail_with_def)
qed

text \<open>
  C6 as stated, for every declared input key, fails for a declared type outside the five
  kinds: a string supplied for a parameter declared as \<open>integer\<close> differs in kind from
  the declared type, and the checker adds no warning for it.
\<close>

theorem integer_declared_unchecked:
  "map_of [(''count'', JObj [(''type'', JStr ''integer'')])] ''count''
     = Some (JObj [(''type'', JStr ''integer'')])
   \<and> runtime_kind (get_prop (JObj [(''count'', JStr ''abc'')]) ''count'') = ''string''
   \<and> validateTestInputs
        (test_case_with (JObj [(''count'', JStr ''abc'')]) Success ([] :: json list))
        \<lparr>name = ''counter'', tool_description = None,
         inputSchema = Some \<lparr>properties = Some [(''count'', JObj [(''type'', JStr ''integer'')])],
                             required = None\<rparr>\<rparr>
       = Inr \<lparr>isValid = True, warnings = []\<rparr>"
  by (simp add: runtime_kind_def get_prop_def validateTestInputs_def test_case_with_def keys_in_def
        check_input_def type_check_def enum_check_def Let_def)

text \<open>
  C10. The type check of a null value against the declared type object changes nothing:
  the runtime type of null is object and null is not an array. So for an input that the
  schema declares as an object, a null value leaves only the enum check to act, and the
  checker finds no type mismatch for it.
\<close>

theorem null_passes_object_check:
  "type_check inputName (Some JNull) (Some (JStr ''object'')) st = st
   \<and> typeof (Some JNull) = ''object'' \<and> isArray (Some JNull) = False
   \<and> (map_of schemaProperties inputName = Some sp \<and> truthy (Some sp)
        \<and> get_prop sp ''type'' = Some (JStr ''object'') \<and> get_prop ins inputName = Some JNull
      \<longrightarrow> check_input schemaProperties ins st inputName =
            enum_check inputName (Some JNull) (get_prop sp ''enum'') st)"
  by (simp add: type_check_def check_input_declared)

theorem null_passes_object_check_witness:
  "map_of validationProperties ''paramObject'' = Some (JObj [(''type'', JStr ''object'')])
   \<and> check_input validationProperties (JObj [(''paramObject'', JNull)])
        \<lparr>isValid = True, warnings = []\<rparr> ''paramObject''
       = Inr \<lparr>isValid = True, warnings = []\<rparr>"
  using null_passes_object_check [of "''paramObject''" "\<lparr>isValid = True, warnings = []\<rparr>"
      validationProperties "JObj [(''type'', JStr ''object'')]" "JObj [(''paramObject'', JNull)]"]
  by (simp add: validationProperties_def get_prop_def enum_check_def)

section \<open>Properties of the test case parser\<close>

lemma structured_iff: "is_structured_object v \<longleftrightarrow> truthy v \<and> typeof v = ''object''"
  by (cases v rule: typeof.cases) (simp_all add: is_structured_object_def)

lemma string_iff: "is_string v \<and> v \<noteq> Some (JStr []) \<longleftrightarrow> truthy v \<and> typeof v = ''string''"
  by (cases v rule: typeof.cases) (simp_all add: is_string_def)

lemma status_truthy:
  "s = Some (JStr ''success'') \<or> s = Some (JStr ''error'') \<Longrightarrow> truthy s"
  by auto

lemma status_of_eq:
  "is_structured_object (get_prop e ''expectedOutcome'') \<Longrightarrow>
     status_of e = get_prop (object_value (get_prop e ''expectedOutcome'')) ''status''"
  by (auto simp: status_of_def object_value_def is_structured_object_def split: option.splits)

lemma validTestCases_console_warn [simp]: "validTestCases (console_warn m st) = validTestCases st"
  by (simp add: console_warn_def)

lemma validTestCases_console_error [simp]: "validTestCases (console_error m st) = validTestCases st"
  by (simp add: console_error_def)

lemma uuid_calls_console_warn [simp]: "uuid_calls (console_warn m st) = uuid_calls st"
  by (simp add: console_warn_def)

lemma parse_element_rejected:
  assumes "rejected e"
  shows "\<exists>st'. parse_element pf tool e i st = Inr st' \<and> validTestCases st' = validTestCases st"
proof -
  from assms consider "\<not> (truthy (Some e) \<and> typeof (Some e) = ''object'')"
    | "\<not> (truthy (get_prop e ''description'') \<and> typeof (get_prop e ''description'') = ''string'')"
    | "\<not> (truthy (get_prop e ''inputs'') \<and> typeof (get_prop e ''inputs'') = ''object'')"
    | "\<not> (truthy (get_prop e ''expectedOutcome'')
          \<and> typeof (get_prop e ''expectedOutcome'') = ''object'')"
    | "is_structured_object (get_prop e ''expectedOutcome'')"
      "status_of e \<noteq> Some (JStr ''success'')" "status_of e \<noteq> Some (JStr ''error'')"
    unfolding rejected_def rejected_as_stated_def
    using structured_iff string_iff by blast
  then show ?thesis
  proof cases
    case 5
    then show ?thesis
      by (simp add: parse_element_def status_of_eq)
  qed (simp_all add: parse_element_def)
qed

lemma parse_element_accepted:
  assumes "\<not> rejected e"
  shows "parse_element pf tool e i st =
           (case attach_warnings tool (newTestCase pf tool e (uuid_calls st)) of
              Inl ex \<Rightarrow> Inl (ex, st\<lparr>uuid_calls := Suc (uuid_calls st)\<rparr>)
            | Inr checked \<Rightarrow>
                Inr (st\<lparr>validTestCases := validTestCases st @ [checked],
                        uuid_calls := Suc (uuid_calls st)\<rparr>))"
proof -
  from assms have a: "truthy (Some e) \<and> typeof (Some e) = ''object''"
    and b: "truthy (get_prop e ''description'') \<and> typeof (get_prop e ''description'') = ''string''"
    and c: "truthy (get_prop e ''inputs'') \<and> typeof (get_prop e ''inputs'') = ''object''"
    and d: "truthy (get_prop e ''expectedOutcome'')
            \<and> typeof (get_prop e ''expectedOutcome'') = ''object''"
    and s: "status_of e = Some (JStr ''success'') \<or> status_of e = Some (JStr ''error'')"
    unfolding rejected_def rejected_as_stated_def
    using structured_iff string_iff by blast+
  from d have so: "is_structured_object (get_prop e ''expectedOutcome'')"
    by (simp add: structured_iff)
  from s have t: "truthy (get_prop (object_value (get_prop e ''expectedOutcome'')) ''status'')"
    using status_truthy status_of_eq [OF so] by metis
  show ?thesis
    using a b c d s t status_of_eq [OF so]
    by (auto simp add: parse_element_def)
qed

lemma validateTestInputs_id [simp]:
  "validateTestInputs (tc\<lparr>id := x\<rparr>) tool = validateTestInputs tc tool"
  by (simp add: validateTestInputs_def cong: option.case_cong sum.case_cong)

lemma validateTestInputs_tc_warnings [simp]:
  "validateTestInputs (tc\<lparr>tc_warnings := x\<rparr>) tool = validateTestInputs tc tool"
  by (simp add: validateTestInputs_def cong: option.case_cong sum.case_cong)

lemma attach_warnings_id:
  "attach_warnings tool (tc\<lparr>id := x\<rparr>) =
     (case attach_warnings tool tc of Inl ex \<Rightarrow> Inl ex | Inr checked \<Rightarrow> Inr (checked\<lparr>id := x\<rparr>))"
  by (simp add: attach_warnings_def split: sum.splits)

lemma newTestCase_id: "newTestCase pf tool e k = (newTestCase pf tool e 0)\<lparr>id := uuidv4 pf k\<rparr>"
  by (simp add: newTestCase_def)

lemma checked_materialized:
  assumes "attach_warnings tool (newTestCase pf tool e k) = Inr checked"
  shows "without_id checked = materialized pf tool e" and "check_returns pf tool e"
  using assms attach_warnings_id [where tool = tool and tc = "newTestCase pf tool e 0" and x = "uuidv4 pf k"]
    newTestCase_id [of pf tool e k]
  by (auto simp: materialized_def check_returns_def without_id_def split: sum.splits)

lemma check_returns_checked:
  assumes "check_returns pf tool e"
  shows "\<exists>checked. attach_warnings tool (newTestCase pf tool e k) = Inr checked"
  using assms attach_warnings_id [where tool = tool and tc = "newTestCase pf tool e 0" and x = "uuidv4 pf k"]
    newTestCase_id [of pf tool e k]
  by (auto simp: check_returns_def split: sum.splits)

lemma parse_element_materialized:
  assumes "\<not> rejected e" and "check_returns pf tool e"
  shows "\<exists>st'. parse_element pf tool e i st = Inr st'
           \<and> map without_id (validTestCases st') =
               map without_id (validTestCases st) @ [materialized pf tool e]"
proof -
  from check_returns_checked [OF assms(2)] obtain checked
    where c: "attach_warnings tool (newTestCase pf tool e (uuid_calls st)) = Inr checked"
    by blast
  from checked_materialized(1) [OF c] c show ?thesis
    by (simp add: parse_element_accepted [OF assms(1)])
qed

lemma forEach_materialized:
  "list_all (\<lambda>e. rejected e \<or> check_returns pf tool e) es \<Longrightarrow>
   \<exists>st'. forEach (parse_element pf tool) es i st = Inr st'
     \<and> map without_id (validTestCases st') =
         map without_id (validTestCases st)
           @ map (materialized pf tool) (filter (\<lambda>e. \<not> rejected e) es)"
proof (induction es arbitrary: i st)
  case Nil
  show ?case by simp
next
  case (Cons e es)
  then have rest: "list_all (\<lambda>e. rejected e \<or> check_returns pf tool e) es"
    and this_one: "rejected e \<or> check_returns pf tool e"
    by simp_all
  show ?case
  proof (cases "rejected e")
    case True
    from parse_element_rejected [OF True, of pf tool i st] obtain st1
      where 1: "parse_element pf tool e i st = Inr st1" "validTestCases st1 = validTestCases st"
      by blast
    from Cons.IH [OF rest, of "Suc i" st1] 1 True show ?thesis
      by auto
  next
    case False
    with this_one have "check_returns pf tool e" by simp
    from parse_element_materialized [OF False this, of i st] obtain st1
      where 1: "parse_element pf tool e i st = Inr st1"
        "map without_id (validTestCases st1) = map without_id (validTestCases st) @ [materialized pf tool e]"
      by blast
    from Cons.IH [OF rest, of "Suc i" st1] 1 False show ?thesis
      by auto
  qed
qed

lemma check_returns_plain:
  assumes "\<not> rejected e" and "plain_inputs (object_value (get_prop e ''inputs''))"
    and "plain_schema tool"
  shows "check_returns pf tool e"
proof (cases "\<exists>schema props. inputSchema tool = Some schema \<and> properties schema = Some props")
  case False
  then have "validateTestInputs (newTestCase pf tool e 0) tool = Inr \<lparr>isValid = True, warnings = []\<rparr>"
    by (auto simp: validateTestInputs_def split: option.splits)
  then show ?thesis
    by (simp add: check_returns_def attach_warnings_def)
next
  case True
  then obtain schema props
    where s: "inputSchema tool = Some schema" "properties schema = Some props" by blast
  with assms(3) have pe: "plain_enums props" by (simp add: plain_schema_def)
  from assms(1) have "is_structured_object (get_prop e ''inputs'')"
    by (simp add: rejected_def rejected_as_stated_def)
  then have io: "is_object (inputs (newTestCase pf tool e 0))"
    by (auto simp: newTestCase_def object_value_def is_structured_object_def
          split: option.splits json.splits)
  have pi: "plain_inputs (inputs (newTestCase pf tool e 0))"
    using assms(2) by (simp add: newTestCase_def)
  from validateTestInputs_returns [OF s io pi pe] show ?thesis
    by (auto simp: check_returns_def attach_warnings_def)
qed

lemma attach_warnings_invariant:
  "tc_warnings tc = None \<Longrightarrow> attach_warnings tool tc = Inr checked \<Longrightarrow>
     warnings_as_checked tool checked"
  by (auto simp: warnings_as_checked_def attach_warnings_def checker_warnings_def
        checker_returns_def split: if_splits sum.splits)

lemma parse_element_invariant:
  assumes "list_all (warnings_as_checked tool) (validTestCases st)"
    and "parse_element pf tool e i st = Inr st'"
  shows "list_all (warnings_as_checked tool) (validTestCases st')"
proof (cases "rejected e")
  case True
  from parse_element_rejected [OF True, of pf tool i st] assms show ?thesis
    by auto
next
  case False
  have "tc_warnings (newTestCase pf tool e (uuid_calls st)) = None"
    by (simp add: newTestCase_def)
  from attach_warnings_invariant [OF this] assms show ?thesis
    by (auto simp: parse_element_accepted [OF False] split: sum.splits)
qed

lemma forEach_invariant:
  "list_all (warnings_as_checked tool) (validTestCases st) \<Longrightarrow>
   forEach (parse_element pf tool) es i st = Inr st' \<Longrightarrow>
   list_all (warnings_as_checked tool) (validTestCases st')"
proof (induction es arbitrary: i st)
  case Nil
  then show ?case by simp
next
  case (Cons e es)
  show ?case
  proof (cases "parse_element pf tool e i st")
    case (Inl raised)
    with Cons.prems show ?thesis by simp
  next
    case (Inr st1)
    with Cons.prems have "forEach (parse_element pf tool) es (Suc i) st1 = Inr st'"
      by simp
    from Cons.IH [OF parse_element_invariant [OF Cons.prems(1) Inr] this] show ?thesis .
  qed
qed

lemma with_handler_invariant:
  assumes "list_all (warnings_as_checked tool) (validTestCases st)"
  shows "list_all (warnings_as_checked tool)
           (validTestCases (with_handler pf tool responseText (forEach (parse_element pf tool) es i st)))"
proof (cases "forEach (parse_element pf tool) es i st")
  case (Inl raised)
  then show ?thesis
    by (cases raised) (simp add: with_handler_def unexpected_error_def)
next
  case (Inr st')
  from forEach_invariant [OF assms Inr] Inr show ?thesis
    by (simp add: with_handler_def)
qed

lemma parseResponse_invariant:
  "list_all (warnings_as_checked tool) (validTestCases (parseResponse pf k responseText tool))"
proof (cases "json_parse pf (jsonContent pf responseText)")
  case (Inl m)
  then show ?thesis
    by (simp add: parseResponse_def Let_def)
next
  case (Inr parsedJson)
  then show ?thesis
    by (cases parsedJson)
       (auto simp: parseResponse_def Let_def simp del: forEach.simps intro!: with_handler_invariant)
qed

lemma description_materialized:
  "description (materialized pf tool e) = string_value (get_prop e ''description'')"
  by (simp add: materialized_def without_id_def attach_warnings_def newTestCase_def
        split: sum.splits)

text \<open>
  C3. When the text handed to \<^verbatim>\<open>JSON.parse\<close> (the fenced content, else the whole response)
  is not valid JSON, the parser returns no test case, and the last two lines it writes are
  errors: the first names the tool and the parse error, the second names the tool and holds
  the raw response text. Before them stands only the notice of a missing fence.
\<close>

theorem parse_failure_returns_empty:
  assumes "json_parse pf (jsonContent pf responseText) = Inl m"
  shows "validTestCases (parseResponse pf k responseText tool) = []
         \<and> console (parseResponse pf k responseText tool) =
             (if fenced pf responseText then []
              else [(WarnLevel, ''['' @ name tool
                      @ ''] LLM response did not contain JSON within backticks. Attempting to parse directly.'')])
             @ [(ErrorLevel, ''['' @ name tool @ ''] Failed to parse JSON from LLM response. Error: '' @ m),
                (ErrorLevel, ''['' @ name tool @ ''] Raw response text was: '' @ responseText)]"
  using assms
  by (simp add: parseResponse_def Let_def console_error_def console_warn_def tag_def)

theorem parse_failure_returns_empty_witness:
  "validTestCases (parseResponse (answering (Inl ''Unexpected token h'')) 0 ''this is not json''
      validationTool) = []
   \<and> (ErrorLevel, ''[validationTool] Raw response text was: this is not json'')
       \<in> set (console (parseResponse (answering (Inl ''Unexpected token h'')) 0 ''this is not json''
                 validationTool))"
proof -
  have "json_parse (answering (Inl ''Unexpected token h''))
          (jsonContent (answering (Inl ''Unexpected token h'')) ''this is not json'')
        = Inl ''Unexpected token h''"
    by (simp add: answering_def)
  from parse_failure_returns_empty [OF this, of 0 validationTool]
  show ?thesis
    by (simp add: validationTool_def)
qed

text \<open>
  An exception of the checker reaches the handler of \<^verbatim>\<open>parseResponse\<close>: an input
  value that the enum warning has to print and that is an object with an own \<open>toString\<close>
  empties the result, the test case accepted before it included.
\<close>

lemma own_toString_empties_result:
  "validTestCases
     (parseResponse
        (answering (Inr (JArr
           [element ''Valid Case 1'' (JObj []) ''error'',
            element ''Enum given an object''
              (JObj [(''paramEnum'', JObj [(''toString'', JNum ''1'')])]) ''success''])))
        0 ''response'' validationTool) = []"
  by (simp add: parseResponse_def Let_def answering_def jsonContent_def fenced_def
        parse_element_def console_warn_def console_error_def element_def get_prop_def
        object_value_def status_value_def attach_warnings_def newTestCase_def
        with_handler_def unexpected_error_def
        validateTestInputs_def validationTool_def validationSchema_def validationProperties_def
        check_required_def has_property_def object_prototype_names_def keys_in_def
        check_input_def type_check_def enum_check_def array_includes_def not_in_enum_def
        text_of_def fail_with_def)

text \<open>
  C4, as amended. Provided the check of the inputs raises no exception for any element that
  is not skipped, the parser skips exactly those elements of the parsed array that are not
  a structured object, or whose description is missing, not a string or the empty string,
  or whose inputs or expected outcome is missing or not a structured object, or whose
  status is missing or neither success nor error; a structured object is any value of
  runtime type object other than null. Every other element becomes a test case, in the
  order of the array, whatever was skipped before it. The check raises for no element
  whose input values, like the members of the schema's enums, are neither an object with an
  own \<open>toString\<close> nor an array that holds one.
\<close>

theorem elements_skipped_or_materialized:
  assumes "json_parse pf (jsonContent pf responseText) = Inr (JArr elements)"
    and "list_all (\<lambda>e. rejected e \<or> check_returns pf tool e) elements"
  shows "map without_id (validTestCases (parseResponse pf k responseText tool)) =
           map (materialized pf tool) (filter (\<lambda>e. \<not> rejected e) elements)
         \<and> (rejected e \<longrightarrow>
              (\<exists>st'. parse_element pf tool e i st = Inr st'
                 \<and> validTestCases st' = validTestCases st))
         \<and> (\<not> rejected e \<and> check_returns pf tool e \<longrightarrow>
              (\<exists>st'. parse_element pf tool e i st = Inr st'
                 \<and> map without_id (validTestCases st') =
                     map without_id (validTestCases st) @ [materialized pf tool e]))
         \<and> (\<not> rejected e \<and> plain_inputs (object_value (get_prop e ''inputs''))
              \<and> plain_schema tool \<longrightarrow> check_returns pf tool e)"
proof (intro conjI impI)
  let ?st1 = "if fenced pf responseText then \<lparr>validTestCases = [], console = [], uuid_calls = k\<rparr>
              else console_warn (tag tool
                     @ ''LLM response did not contain JSON within backticks. Attempting to parse directly.'')
                   \<lparr>validTestCases = [], console = [], uuid_calls = k\<rparr>"
  from forEach_materialized [OF assms(2), of 0 ?st1] obtain st'
    where 1: "forEach (parse_element pf tool) elements 0 ?st1 = Inr st'"
      and 2: "map without_id (validTestCases st') =
                map without_id (validTestCases ?st1)
                  @ map (materialized pf tool) (filter (\<lambda>e. \<not> rejected e) elements)"
    by blast
  have "parseResponse pf k responseText tool = st'"
    using assms(1) 1 by (simp add: parseResponse_def Let_def with_handler_def)
  with 2 show "map without_id (validTestCases (parseResponse pf k responseText tool)) =
           map (materialized pf tool) (filter (\<lambda>e. \<not> rejected e) elements)"
    by simp
  show "\<exists>st'. parse_element pf tool e i st = Inr st' \<and> validTestCases st' = validTestCases st"
    if "rejected e"
    using that by (rule parse_element_rejected)
  show "\<exists>st'. parse_element pf tool e i st = Inr st'
          \<and> map without_id (validTestCases st') =
              map without_id (validTestCases st) @ [materialized pf tool e]"
    if "\<not> rejected e \<and> check_returns pf tool e"
    using that parse_element_materialized by blast
  show "check_returns pf tool e"
    if "\<not> rejected e \<and> plain_inputs (object_value (get_prop e ''inputs'')) \<and> plain_schema tool"
    using that check_returns_plain by blast
qed

theorem elements_skipped_or_materialized_witness:
  "map description
     (validTestCases
        (parseResponse
           (answering (Inr (JArr [element ''Valid Case 1'' (JObj []) ''error'', JNum ''5'',
                                  element [] (JObj []) ''success'',
                                  element ''Invalid Status'' (JObj []) ''unknown'',
                                  element ''Valid Case 2'' (JArr []) ''error''])))
           0 ''response'' validationTool))
   = [''Valid Case 1'', ''Valid Case 2'']"
proof -
  let ?es = "[element ''Valid Case 1'' (JObj []) ''error'', JNum ''5'',
              element [] (JObj []) ''success'',
              element ''Invalid Status'' (JObj []) ''unknown'',
              element ''Valid Case 2'' (JArr []) ''error'']"
  let ?pf = "answering (Inr (JArr ?es))"
  have p: "json_parse ?pf (jsonContent ?pf ''response'') = Inr (JArr ?es)"
    by (simp add: answering_def)
  have r1: "\<not> rejected (element ''Valid Case 1'' (JObj []) ''error'')"
    and r2: "rejected (JNum ''5'')"
    and r3: "rejected (element [] (JObj []) ''success'')"
    and r4: "rejected (element ''Invalid Status'' (JObj []) ''unknown'')"
    and r5: "\<not> rejected (element ''Valid Case 2'' (JArr []) ''error'')"
    by (simp_all add: rejected_def rejected_as_stated_def element_def is_structured_object_def
          is_string_def status_of_def get_prop_def)
  have c1: "check_returns ?pf validationTool (element ''Valid Case 1'' (JObj []) ''error'')"
    and c5: "check_returns ?pf validationTool (element ''Valid Case 2'' (JArr []) ''error'')"
    by (simp_all add: check_returns_def attach_warnings_def newTestCase_def element_def
          get_prop_def object_value_def status_value_def)
  have h: "list_all (\<lambda>e. rejected e \<or> check_returns ?pf validationTool e) ?es"
    using r2 r3 r4 c1 c5 by simp
  have f: "filter (\<lambda>e. \<not> rejected e) ?es =
             [element ''Valid Case 1'' (JObj []) ''error'', element ''Valid Case 2'' (JArr []) ''error'']"
    using r1 r2 r3 r4 r5 by simp
  from elements_skipped_or_materialized [OF p h, of 0]
  have "map without_id (validTestCases (parseResponse ?pf 0 ''response'' validationTool)) =
          map (materialized ?pf validationTool) (filter (\<lambda>e. \<not> rejected e) ?es)"
    by blast
  then have "map description (map without_id (validTestCases (parseResponse ?pf 0 ''response'' validationTool))) =
          map description (map (materialized ?pf validationTool) (filter (\<lambda>e. \<not> rejected e) ?es))"
    by (rule arg_cong)
  then show ?thesis
    unfolding f
    by (simp add: o_def without_id_def description_materialized element_def get_prop_def
          string_value_def)
qed

text \<open>
  C4 as stated fails for an element whose description is the empty string: the
  description is there and is a string, the inputs and the expected outcome are structured
  objects and the status is success, and the parser skips the element.
\<close>

theorem empty_description_skipped:
  "\<not> rejected_as_stated (element [] (JObj []) ''success'')
   \<and> validTestCases
        (parseResponse (answering (Inr (JArr [element [] (JObj []) ''success''])))
           0 ''response'' validationTool) = []"
  by (simp add: rejected_as_stated_def element_def is_structured_object_def is_string_def
        status_of_def get_prop_def parseResponse_def Let_def answering_def jsonContent_def
        fenced_def parse_element_def console_warn_def with_handler_def)

text \<open>
  C7. Every test case the parser returns carries warnings exactly when its status is
  success and the checker finds warnings for it, and then it carries those: a test case
  that expects an error carries none, and neither does one that expects success and for
  which the checker finds nothing. For a returned test case that expects success the
  checker has returned.
\<close>

theorem warnings_only_on_checked_success:
  "\<forall>tc \<in> set (validTestCases (parseResponse pf k responseText tool)).
      tc_warnings tc =
        (if status (expectedOutcome tc) = Success \<and> checker_warnings tool tc \<noteq> []
         then Some (checker_warnings tool tc) else None)
      \<and> (status (expectedOutcome tc) = Error \<longrightarrow> tc_warnings tc = None)
      \<and> (status (expectedOutcome tc) = Success \<and> checker_warnings tool tc = []
           \<longrightarrow> tc_warnings tc = None)
      \<and> (status (expectedOutcome tc) = Success
           \<longrightarrow> (\<exists>result. validateTestInputs tc tool = Inr result
                  \<and> checker_warnings tool tc = warnings result))"
proof
  fix tc
  assume "tc \<in> set (validTestCases (parseResponse pf k responseText tool))"
  with parseResponse_invariant [of tool pf k responseText]
  have "warnings_as_checked tool tc"
    by (simp add: list_all_iff)
  then show "tc_warnings tc =
        (if status (expectedOutcome tc) = Success \<and> checker_warnings tool tc \<noteq> []
         then Some (checker_warnings tool tc) else None)
      \<and> (status (expectedOutcome tc) = Error \<longrightarrow> tc_warnings tc = None)
      \<and> (status (expectedOutcome tc) = Success \<and> checker_warnings tool tc = []
           \<longrightarrow> tc_warnings tc = None)
      \<and> (status (expectedOutcome tc) = Success
           \<longrightarrow> (\<exists>result. validateTestInputs tc tool = Inr result
                  \<and> checker_warnings tool tc = warnings result))"
    by (auto simp: warnings_as_checked_def checker_returns_def checker_warnings_def
          split: sum.splits)
qed

theorem warnings_only_on_checked_success_witness:
  "list_all (warnings_as_checked validationTool)
     (validTestCases
        (parseResponse
           (answering (Inr (JArr
              [element ''Error test with technically invalid input''
                 (JObj [(''paramString'', JNum ''123'')]) ''error'',
               element ''Test type mismatch''
                 (JObj [(''paramString'', JNum ''123''), (''paramNumber'', JNum ''456''),
                        (''paramEnum'', JStr ''A'')]) ''success'',
               element ''Test 1''
                 (JObj [(''paramString'', JStr ''abc''), (''paramNumber'', JNum ''123''),
                        (''paramEnum'', JStr ''A'')]) ''success''])))
           0 ''response'' validationTool))
   \<and> map tc_warnings
       (validTestCases
          (parseResponse
             (answering (Inr (JArr
                [element ''Error test with technically invalid input''
                   (JObj [(''paramString'', JNum ''123'')]) ''error'',
                 element ''Test type mismatch''
                   (JObj [(''paramString'', JNum ''123''), (''paramNumber'', JNum ''456''),
                          (''paramEnum'', JStr ''A'')]) ''success'',
                 element ''Test 1''
                   (JObj [(''paramString'', JStr ''abc''), (''paramNumber'', JNum ''123''),
                          (''paramEnum'', JStr ''A'')]) ''success''])))
             0 ''response'' validationTool))
     = [None,
        Some [''Input '' @ [CHR 0x27] @ ''paramString'' @ [CHR 0x27]
                @ '' type mismatch: Expected string, got number.''],
        None]"
proof -
  let ?pf = "answering (Inr (JArr
              [element ''Error test with technically invalid input''
                 (JObj [(''paramString'', JNum ''123'')]) ''error'',
               element ''Test type mismatch''
                 (JObj [(''paramString'', JNum ''123''), (''paramNumber'', JNum ''456''),
                        (''paramEnum'', JStr ''A'')]) ''success'',
               element ''Test 1''
                 (JObj [(''paramString'', JStr ''abc''), (''paramNumber'', JNum ''123''),
                        (''paramEnum'', JStr ''A'')]) ''success'']))"
  have 1: "list_all (warnings_as_checked validationTool)
             (validTestCases (parseResponse ?pf 0 ''response'' validationTool))"
    using warnings_only_on_checked_success [of ?pf 0 "''response''" validationTool]
    by (auto simp: list_all_iff warnings_as_checked_def checker_returns_def split: sum.splits)
  have 2: "map tc_warnings (validTestCases (parseResponse ?pf 0 ''response'' validationTool))
     = [None,
        Some [''Input '' @ [CHR 0x27] @ ''paramString'' @ [CHR 0x27]
                @ '' type mismatch: Expected string, got number.''],
        None]"
    by (simp add: parseResponse_def Let_def answering_def jsonContent_def fenced_def
          parse_element_def console_warn_def element_def get_prop_def object_value_def
          status_value_def attach_warnings_def newTestCase_def with_handler_def
          validateTestInputs_def validationTool_def validationSchema_def validationProperties_def
          check_required_def has_property_def object_prototype_names_def keys_in_def
          check_input_def type_check_def enum_check_def array_includes_def fail_with_def
          type_mismatch_def)
  from 1 2 show ?thesis by simp
qed

section \<open>Properties of the response validator\<close>

lemma run_rules_loop:
  "foldl (run_rule re fragment) run rules =
     \<lparr>messages = messages run
        @ map rule_message (filter (\<lambda>r. \<not> evaluate_rule re (kind r) fragment) rules),
      evaluated = evaluated run @ map (\<lambda>r. (r, fragment)) rules\<rparr>"
  by (induction rules arbitrary: run) (simp_all add: run_rule_def)

lemma run_rules_eq:
  "run_rules re rules fragment =
     \<lparr>messages = map rule_message (filter (\<lambda>r. \<not> evaluate_rule re (kind r) fragment) rules),
      evaluated = map (\<lambda>r. (r, fragment)) rules\<rparr>"
  by (simp add: run_rules_def run_rules_loop)

lemma resolve_steps_append:
  "resolve_steps root (ps @ qs) =
     (case resolve_steps root ps of None \<Rightarrow> None | Some v \<Rightarrow> resolve_steps v qs)"
  by (induction ps arbitrary: root) (simp_all split: option.splits)

lemma unresolved_fails:
  assumes "target_of k = Some t" and "resolve fragment t = None"
  shows "\<not> evaluate_rule re k fragment"
  using assms by (cases k) simp_all

text \<open>
  C1. When the test case expects success and the response is an error, the verdict is
  invalid, its only error is \<open>Tool execution failed: \<close> followed by the message of the
  response's error, and no rule of the test case is evaluated.
\<close>

theorem expected_success_actual_error:
  assumes "status (expectedOutcome testCase) = Success"
  shows "validateResponse re (ErrorResponse e) testCase =
           \<lparr>valid = False, errors = [''Tool execution failed: '' @ message e]\<rparr>
         \<and> evaluated (orchestrate re (ErrorResponse e) testCase) = []"
  using assms by (simp add: validateResponse_def orchestrate_def)

theorem expected_success_actual_error_witness:
  "validateResponse (\<lambda>p s. False) (ErrorResponse \<lparr>message = ''no route'', code = None\<rparr>)
      (test_case_with (JObj []) Success
         [\<lparr>kind = HasProperty ''foo'', rule_message = ''missing foo''\<rparr>])
     = \<lparr>valid = False, errors = [''Tool execution failed: no route'']\<rparr>
   \<and> evaluated (orchestrate (\<lambda>p s. False) (ErrorResponse \<lparr>message = ''no route'', code = None\<rparr>)
        (test_case_with (JObj []) Success
           [\<lparr>kind = HasProperty ''foo'', rule_message = ''missing foo''\<rparr>])) = []"
proof -
  have "status (expectedOutcome (test_case_with (JObj []) Success
          [\<lparr>kind = HasProperty ''foo'', rule_message = ''missing foo''\<rparr>])) = Success"
    by (simp add: test_case_with_def)
  from expected_success_actual_error [OF this, of "\<lambda>p s. False" "\<lparr>message = ''no route'', code = None\<rparr>"]
  show ?thesis by simp
qed

text \<open>
  C2. When the test case expects an error and the response is an error, every declared
  rule is evaluated, in declaration order, against the root that holds the response's error
  under the key \<open>error\<close>; the errors of the verdict are the messages of the failing rules
  in that order, and the verdict is valid exactly when every rule passes. A rule
  \<open>matches\<close> with target \<open>error.message\<close> and value \<open>fail\<close> passes against an error
  whose message is \<open>fail\<close>, so that alone it gives a valid verdict.
\<close>

theorem expected_error_actual_error:
  assumes "status (expectedOutcome testCase) = Error"
  shows "evaluated (orchestrate re (ErrorResponse e) testCase) =
           map (\<lambda>r. (r, error_root e)) (validationRules (expectedOutcome testCase))
         \<and> errors (validateResponse re (ErrorResponse e) testCase) =
             map rule_message
               (filter (\<lambda>r. \<not> evaluate_rule re (kind r) (error_root e))
                  (validationRules (expectedOutcome testCase)))
         \<and> valid (validateResponse re (ErrorResponse e) testCase) =
             list_all (\<lambda>r. evaluate_rule re (kind r) (error_root e))
               (validationRules (expectedOutcome testCase))
         \<and> get_prop (error_root e) ''error'' =
             Some (JObj ((''message'', JStr (message e))
                         # (case code e of None \<Rightarrow> [] | Some c \<Rightarrow> [(''code'', JStr c)])))
         \<and> (message e = ''fail''
              \<and> validationRules (expectedOutcome testCase) =
                  [\<lparr>kind = Matches ''error.message'' (JStr ''fail''), rule_message = m\<rparr>]
            \<longrightarrow> validateResponse re (ErrorResponse e) testCase = \<lparr>valid = True, errors = []\<rparr>)"
proof (intro conjI impI)
  show "evaluated (orchestrate re (ErrorResponse e) testCase) =
           map (\<lambda>r. (r, error_root e)) (validationRules (expectedOutcome testCase))"
    using assms by (simp add: orchestrate_def run_rules_eq)
  show "errors (validateResponse re (ErrorResponse e) testCase) =
             map rule_message
               (filter (\<lambda>r. \<not> evaluate_rule re (kind r) (error_root e))
                  (validationRules (expectedOutcome testCase)))"
    using assms by (simp add: validateResponse_def orchestrate_def run_rules_eq)
  show "valid (validateResponse re (ErrorResponse e) testCase) =
             list_all (\<lambda>r. evaluate_rule re (kind r) (error_root e))
               (validationRules (expectedOutcome testCase))"
    using assms
    by (simp add: validateResponse_def orchestrate_def run_rules_eq filter_empty_conv list_all_iff)
  show "get_prop (error_root e) ''error'' =
             Some (JObj ((''message'', JStr (message e))
                         # (case code e of None \<Rightarrow> [] | Some c \<Rightarrow> [(''code'', JStr c)])))"
    by (simp add: get_prop_def error_root_def)
next
  assume a: "message e = ''fail''
              \<and> validationRules (expectedOutcome testCase) =
                  [\<lparr>kind = Matches ''error.message'' (JStr ''fail''), rule_message = m\<rparr>]"
  have t: "tokenize ''error.message'' = [Key ''error'', Key ''message'']"
    by (simp add: tokenize_def segment_steps_def)
  have "resolve (error_root e) ''error.message'' = Some (JStr ''fail'')"
    using a by (simp add: resolve_def t error_root_def)
  moreover have "regexp_test re ''fail'' ''fail''"
    by (simp add: regexp_test_def regexp_syntax_def)
  ultimately have "evaluate_rule re (Matches ''error.message'' (JStr ''fail'')) (error_root e)"
    by simp
  with a assms
  show "validateResponse re (ErrorResponse e) testCase = \<lparr>valid = True, errors = []\<rparr>"
    by (simp add: validateResponse_def orchestrate_def run_rules_eq)
qed

theorem expected_error_actual_error_witness:
  "validateResponse (\<lambda>p s. False) (ErrorResponse \<lparr>message = ''fail'', code = None\<rparr>)
      (test_case_with (JObj []) Error
         [\<lparr>kind = Matches ''error.message'' (JStr ''fail''), rule_message = ''msg''\<rparr>])
     = \<lparr>valid = True, errors = []\<rparr>
   \<and> evaluated (orchestrate (\<lambda>p s. False) (ErrorResponse \<lparr>message = ''fail'', code = None\<rparr>)
        (test_case_with (JObj []) Error
           [\<lparr>kind = Matches ''error.message'' (JStr ''fail''), rule_message = ''msg''\<rparr>]))
     = [(\<lparr>kind = Matches ''error.message'' (JStr ''fail''), rule_message = ''msg''\<rparr>,
         JObj [(''error'', JObj [(''message'', JStr ''fail'')])])]"
proof -
  have "status (expectedOutcome (test_case_with (JObj []) Error
          [\<lparr>kind = Matches ''error.message'' (JStr ''fail''), rule_message = ''msg''\<rparr>])) = Error"
    by (simp add: test_case_with_def)
  from expected_error_actual_error [OF this, of "\<lambda>p s. False"
      "\<lparr>message = ''fail'', code = None\<rparr>" "''msg''"]
  show ?thesis
    by (simp add: test_case_with_def error_root_def)
qed

text \<open>
  C8. Path resolution is a total function that answers \<open>NOT_FOUND\<close>, here \<open>None\<close>, on
  a missing key, on an index out of range, on an index into a value that is no sequence and
  on a key into a value that is no mapping, at the first step and at any later one, while a
  null that is there resolves to itself. A rule whose target does not resolve fails, and as
  the only rule of a test case it leaves its message as the only error of the verdict; so
  does an \<open>arrayLength\<close> rule whose target resolves to a value that is no sequence.
\<close>

theorem resolution_fails_soft:
  "(map_of kvs k = None \<longrightarrow> resolve_steps (JObj kvs) (Key k # ss) = None)
   \<and> (length xs \<le> i \<longrightarrow> resolve_steps (JArr xs) (Index i # ss) = None)
   \<and> (\<not> isArray (Some v) \<longrightarrow> resolve_steps v (Index i # ss) = None)
   \<and> (\<not> is_mapping v \<longrightarrow> resolve_steps v (Key k # ss) = None)
   \<and> (resolve_steps root ps = Some v \<and> apply_step v s = None
        \<longrightarrow> resolve_steps root (ps @ s # ss) = None)
   \<and> (map_of kvs k = Some JNull \<longrightarrow> resolve_steps (JObj kvs) [Key k] = Some JNull)
   \<and> (target_of (kind r) = Some t \<and> resolve fragment t = None
        \<longrightarrow> \<not> evaluate_rule re (kind r) fragment
            \<and> messages (run_rules re [r] fragment) = [rule_message r])
   \<and> (resolve fragment t = Some v \<and> \<not> isArray (Some v)
        \<longrightarrow> \<not> evaluate_rule re (ArrayLength t n) fragment)
   \<and> (status (expectedOutcome testCase) = Success
        \<and> validationRules (expectedOutcome testCase) = [r]
        \<and> \<not> evaluate_rule re (kind r) fragment
        \<longrightarrow> validateResponse re (SuccessResponse fragment) testCase =
              \<lparr>valid = False, errors = [rule_message r]\<rparr>)"
proof (intro conjI impI)
  show "resolve_steps v (Index i # ss) = None" if "\<not> isArray (Some v)"
    using that by (cases v) simp_all
  show "resolve_steps v (Key k # ss) = None" if "\<not> is_mapping v"
    using that by (cases v) (simp_all add: is_mapping_def)
  show "resolve_steps root (ps @ s # ss) = None"
    if "resolve_steps root ps = Some v \<and> apply_step v s = None"
    using that by (simp add: resolve_steps_append)
  show "\<not> evaluate_rule re (kind r) fragment"
    if "target_of (kind r) = Some t \<and> resolve fragment t = None"
    using that unresolved_fails by blast
  show "messages (run_rules re [r] fragment) = [rule_message r]"
    if "target_of (kind r) = Some t \<and> resolve fragment t = None"
    using that unresolved_fails [of "kind r" t fragment re] by (simp add: run_rules_eq)
  show "\<not> evaluate_rule re (ArrayLength t n) fragment"
    if "resolve fragment t = Some v \<and> \<not> isArray (Some v)"
    using that by (cases v) simp_all
  show "validateResponse re (SuccessResponse fragment) testCase =
          \<lparr>valid = False, errors = [rule_message r]\<rparr>"
    if "status (expectedOutcome testCase) = Success
        \<and> validationRules (expectedOutcome testCase) = [r]
        \<and> \<not> evaluate_rule re (kind r) fragment"
    using that by (simp add: validateResponse_def orchestrate_def run_rules_eq)
qed simp_all

theorem resolution_fails_soft_witness:
  "resolve (JObj [(''foo'', JNull)]) ''foo'' = Some JNull
   \<and> resolve (JObj [(''foo'', JNull)]) ''bar'' = None
   \<and> resolve (JObj [(''items'', JArr [JObj [(''id'', JNum ''1'')], JObj [(''id'', JNum ''2'')]])]) ''items[0].id''
       = Some (JNum ''1'')
   \<and> resolve (JObj [(''items'', JArr [JObj [(''id'', JNum ''1'')], JObj [(''id'', JNum ''2'')]])]) ''items[2].id''
       = None
   \<and> resolve (JObj [(''items'', JArr [JObj [(''id'', JNum ''1'')], JObj [(''id'', JNum ''2'')]])]) ''items.id''
       = None
   \<and> validateResponse (\<lambda>p s. True) (SuccessResponse (JObj [(''foo'', JNull)]))
        (test_case_with (JObj []) Success
           [\<lparr>kind = Matches ''bar'' (JStr ''^x''), rule_message = ''bar should match''\<rparr>])
       = \<lparr>valid = False, errors = [''bar should match'']\<rparr>
   \<and> validateResponse (\<lambda>p s. True) (SuccessResponse (JObj [(''foo'', JNull)]))
        (test_case_with (JObj []) Success
           [\<lparr>kind = ArrayLength ''foo'' (JNum ''0''), rule_message = ''foo should be empty''\<rparr>])
       = \<lparr>valid = False, errors = [''foo should be empty'']\<rparr>"
proof -
  have tf: "tokenize ''foo'' = [Key ''foo'']" and tb: "tokenize ''bar'' = [Key ''bar'']"
    and ti: "tokenize ''items.id'' = [Key ''items'', Key ''id'']"
    by (simp_all add: tokenize_def segment_steps_def)
  have t0: "tokenize ''items[0].id'' = [Key ''items'', Index 0, Key ''id'']"
    and t2: "tokenize ''items[2].id'' = [Key ''items'', Index 2, Key ''id'']"
    by (simp_all add: tokenize_def segment_steps_def is_digit_def digits_value_def)
  note a = resolution_fails_soft [where kvs = "[(''foo'', JNull)]" and k = "''bar''" and ss = "[]"
      and xs = "[]" and i = 0 and v = JNull and root = "JObj [(''foo'', JNull)]"
      and ps = "[Key ''foo'']" and s = "Index 0"
      and r = "\<lparr>kind = Matches ''bar'' (JStr ''^x''), rule_message = ''bar should match''\<rparr>"
      and t = "''bar''" and fragment = "JObj [(''foo'', JNull)]" and re = "\<lambda>p s. True"
      and n = "JNum ''0''"
      and testCase = "test_case_with (JObj []) Success
           [\<lparr>kind = Matches ''bar'' (JStr ''^x''), rule_message = ''bar should match''\<rparr>]"]
  note b = resolution_fails_soft [where kvs = "[(''foo'', JNull)]" and k = "''foo''" and ss = "[]"
      and xs = "[]" and i = 0 and v = JNull and root = "JObj [(''foo'', JNull)]"
      and ps = "[]" and s = "Index 0"
      and r = "\<lparr>kind = ArrayLength ''foo'' (JNum ''0''), rule_message = ''foo should be empty''\<rparr>"
      and t = "''foo''" and fragment = "JObj [(''foo'', JNull)]" and re = "\<lambda>p s. True"
      and n = "JNum ''0''"
      and testCase = "test_case_with (JObj []) Success
           [\<lparr>kind = ArrayLength ''foo'' (JNum ''0''), rule_message = ''foo should be empty''\<rparr>]"]
  note c = resolution_fails_soft [where kvs = "[]" and k = "''id''" and ss = "[Key ''id'']"
      and xs = "[JObj [(''id'', JNum ''1'')], JObj [(''id'', JNum ''2'')]]" and i = 2
      and v = "JArr [JObj [(''id'', JNum ''1'')], JObj [(''id'', JNum ''2'')]]"
      and root = "JObj [(''items'', JArr [JObj [(''id'', JNum ''1'')], JObj [(''id'', JNum ''2'')]])]"
      and ps = "[Key ''items'']" and s = "Key ''id''"
      and r = "\<lparr>kind = HasProperty ''items.id'', rule_message = ''missing id''\<rparr>"
      and t = "''items.id''"
      and fragment = "JObj [(''items'', JArr [JObj [(''id'', JNum ''1'')], JObj [(''id'', JNum ''2'')]])]"
      and re = "\<lambda>p s. True" and n = "JNum ''0''"
      and testCase = "test_case_with (JObj []) Success
           [\<lparr>kind = HasProperty ''items.id'', rule_message = ''missing id''\<rparr>]"]
  from a b c show ?thesis
    by (simp add: resolve_def tf tb ti t0 t2 test_case_with_def is_mapping_def)
qed

end
